theory Spec2Isabelle
  imports Main "HOL-Library.List_Lexorder"
begin

section \<open>JavaScript strings\<close>

text \<open>
  A JavaScript string is a sequence of UTF-16 code units.  The IPA alphabet of the lexicon
  editor lies outside ASCII, so a string is modelled as the list of its code units, each
  a natural number.  \<open>str\<close> embeds an ASCII literal.  The order on \<open>jsstring\<close> given by
  \<open>List_Lexorder\<close> (lexicographic on code units, a proper prefix first) is the order
  \<open>Array.prototype.sort\<close> uses without a comparator.
\<close>

type_synonym jsstring = "nat list"

definition str :: "string \<Rightarrow> jsstring" where
  "str s = map of_char s"

text \<open>\<open>String.prototype.trim\<close>: strips WhiteSpace and LineTerminator code units at both ends.\<close>

definition isWhiteSpace :: "nat \<Rightarrow> bool" where
  "isWhiteSpace c \<longleftrightarrow>
     c = 9 \<or> c = 10 \<or> c = 11 \<or> c = 12 \<or> c = 13 \<or> c = 32 \<or> c = 160 \<or> c = 5760 \<or>
     (8192 \<le> c \<and> c \<le> 8202) \<or> c = 8232 \<or> c = 8233 \<or> c = 8239 \<or> c = 8287 \<or>
     c = 12288 \<or> c = 65279"

definition trim :: "jsstring \<Rightarrow> jsstring" where
  "trim s = rev (dropWhile isWhiteSpace (rev (dropWhile isWhiteSpace s)))"

text \<open>
  \<open>String.prototype.toLowerCase\<close> and \<open>String.prototype.localeCompare\<close> belong to the
  JavaScript runtime, not to the repository: every function below that calls them takes them
  as the parameters \<open>lc\<close> and \<open>cmp\<close>.  Two concrete instances serve the scenarios:
  \<open>lowerASCII\<close> agrees with \<open>toLowerCase\<close> on every string whose cased letters are ASCII,
  and \<open>codeUnitCompare\<close> is the comparison by code units.
\<close>

definition lowerASCII :: "jsstring \<Rightarrow> jsstring" where
  "lowerASCII s = map (\<lambda>c. if 65 \<le> c \<and> c \<le> 90 then c + 32 else c) s"

definition codeUnitCompare :: "jsstring \<Rightarrow> jsstring \<Rightarrow> int" where
  "codeUnitCompare a b = (if a < b then - 1 else if a = b then 0 else 1)"

text \<open>
  What the ordering results need of a comparison: its sign is antisymmetric and
  \<open>\<le> 0\<close> is transitive (a total preorder, as a collation is).
\<close>

definition isCollation :: "(jsstring \<Rightarrow> jsstring \<Rightarrow> int) \<Rightarrow> bool" where
  "isCollation cmp \<longleftrightarrow>
     (\<forall>a b. (cmp a b < 0) = (0 < cmp b a)) \<and>
     (\<forall>a b c. cmp a b \<le> 0 \<longrightarrow> cmp b c \<le> 0 \<longrightarrow> cmp a c \<le> 0)"

text \<open>The JavaScript idioms on optional strings that the source uses.\<close>

definition truthy :: "jsstring option \<Rightarrow> bool" where
  "truthy v \<longleftrightarrow> (case v of None \<Rightarrow> False | Some s \<Rightarrow> s \<noteq> [])"

definition orEmpty :: "jsstring option \<Rightarrow> jsstring" where
  \<comment> \<open>\<open>v || ''\<close>\<close>
  "orEmpty v = (case v of None \<Rightarrow> [] | Some s \<Rightarrow> s)"

definition orUndefined :: "jsstring \<Rightarrow> jsstring option" where
  \<comment> \<open>\<open>s || undefined\<close>\<close>
  "orUndefined s = (if s = [] then None else Some s)"

definition orElse :: "jsstring option \<Rightarrow> jsstring option \<Rightarrow> jsstring option" where
  \<comment> \<open>\<open>a || b\<close>\<close>
  "orElse a b = (if truthy a then a else b)"

section \<open>Entry model\<close>

text \<open>\<open>interface LexiconEntry\<close>; an optional field that is absent is \<open>None\<close>.  The field
  \<open>alias\<close> is written \<open>alias'\<close>, \<open>alias\<close> being a keyword of Isabelle.\<close>

record LexiconEntry =
  graphemes :: "jsstring list"
  alias' :: "jsstring option"
  aliasSayAsType :: "jsstring option"
  phoneme :: "jsstring option"
  phonemeSayAsType :: "jsstring option"
  isNew :: "bool option"

text \<open>The object literal \<open>{ graphemes: gs, alias: a, phoneme: p }\<close>, the other fields absent.\<close>

definition plainEntry :: "jsstring list \<Rightarrow> jsstring option \<Rightarrow> jsstring option \<Rightarrow> LexiconEntry" where
  "plainEntry gs a p =
     \<lparr>graphemes = gs, alias' = a, aliasSayAsType = None, phoneme = p, phonemeSayAsType = None,
      isNew = None\<rparr>"

text \<open>The phoneme of the scenarios, \<open>k\<close>, \<open>U+00E6\<close>, \<open>t\<close>.\<close>

definition kaet :: jsstring where
  "kaet = [107, 230, 116]"

definition NEW_ENTRY :: jsstring where
  "NEW_ENTRY = str ''*** NEW ENTRY ***''"

section \<open>Ordering engine\<close>

text \<open>\<open>e.graphemes[0]?.toLowerCase() || ''\<close>\<close>

definition firstGraphemeKey :: "(jsstring \<Rightarrow> jsstring) \<Rightarrow> LexiconEntry \<Rightarrow> jsstring" where
  "firstGraphemeKey lc e = (case graphemes e of [] \<Rightarrow> [] | g # _ \<Rightarrow> lc g)"

text \<open>The \<open>for\<close> loop of \<open>findInsertionIndex\<close>, started at index \<open>i\<close> on the entries from \<open>i\<close> on.\<close>

fun findInsertionLoop ::
  "(jsstring \<Rightarrow> jsstring \<Rightarrow> int) \<Rightarrow> (jsstring \<Rightarrow> jsstring) \<Rightarrow> jsstring \<Rightarrow>
   LexiconEntry list \<Rightarrow> nat \<Rightarrow> nat" where
  "findInsertionLoop cmp lc newGrapheme [] i = i"
| "findInsertionLoop cmp lc newGrapheme (e # es) i =
     (if cmp newGrapheme (firstGraphemeKey lc e) < 0 then i
      else findInsertionLoop cmp lc newGrapheme es (Suc i))"

definition findInsertionIndex ::
  "(jsstring \<Rightarrow> jsstring \<Rightarrow> int) \<Rightarrow> (jsstring \<Rightarrow> jsstring) \<Rightarrow>
   LexiconEntry list \<Rightarrow> LexiconEntry \<Rightarrow> nat" where
  "findInsertionIndex cmp lc entries newEntry =
     findInsertionLoop cmp lc (firstGraphemeKey lc newEntry) entries 0"

text \<open>\<open>xs.splice(i, 0, x)\<close> on a copy, and \<open>xs.filter((_, idx) => idx !== i)\<close>.\<close>

definition spliceInsert :: "nat \<Rightarrow> 'a \<Rightarrow> 'a list \<Rightarrow> 'a list" where
  "spliceInsert i x xs = take i xs @ x # drop i xs"

definition removeIndex :: "nat \<Rightarrow> 'a list \<Rightarrow> 'a list" where
  "removeIndex i xs = take i xs @ drop (Suc i) xs"

text \<open>
  The sentence of the specification, written as it reads: the first index whose key is
  greater than or equal to the new key, or the length.
\<close>

fun specFirstIndexGE ::
  "(jsstring \<Rightarrow> jsstring \<Rightarrow> int) \<Rightarrow> (jsstring \<Rightarrow> jsstring) \<Rightarrow> jsstring \<Rightarrow>
   LexiconEntry list \<Rightarrow> nat \<Rightarrow> nat" where
  "specFirstIndexGE cmp lc newGrapheme [] i = i"
| "specFirstIndexGE cmp lc newGrapheme (e # es) i =
     (if cmp (firstGraphemeKey lc e) newGrapheme \<ge> 0 then i
      else specFirstIndexGE cmp lc newGrapheme es (Suc i))"

text \<open>Non-decreasing case-insensitive first-grapheme order.\<close>

definition sortedByKey ::
  "(jsstring \<Rightarrow> jsstring \<Rightarrow> int) \<Rightarrow> (jsstring \<Rightarrow> jsstring) \<Rightarrow> LexiconEntry list \<Rightarrow> bool" where
  "sortedByKey cmp lc es =
     sorted_wrt (\<lambda>a b. cmp (firstGraphemeKey lc a) (firstGraphemeKey lc b) \<le> 0) es"

section \<open>Merge engine\<close>

text \<open>
  \<open>interface MergeConflict\<close>.  \<open>type\<close> is one of the literals \<open>'additional_alias'\<close> and
  \<open>'conflict'\<close>; \<open>resolution\<close> is \<open>'master'\<close>, \<open>'merge'\<close>, \<open>'both'\<close> or \<open>null\<close> (\<open>None\<close>).
\<close>

datatype ConflictType = AdditionalAlias | Conflict

datatype Resolution = Master | Merge | Both

record MergeConflict =
  conflictType :: ConflictType
  masterEntry :: LexiconEntry
  mergeEntry :: LexiconEntry
  masterIndex :: nat
  mergeIndex :: nat
  commonGraphemes :: "jsstring list"
  resolution :: "Resolution option"

record MergeSummary =
  newEntries :: nat
  conflictsResolved :: nat
  identicalSkipped :: int
  totalProcessed :: nat
  errorsFound :: nat

text \<open>
  The part of the component state of \<open>App\<close> that the entry handlers and the merge read and
  write.  \<open>mergeDetailedErrors\<close> keeps the number of error records only.  Toasts, the file
  handle and the other dialog flags are left out: no function below reads them.
\<close>

record AppState =
  entries :: "LexiconEntry list"
  selectedIndex :: "nat option"
  mergeFileContent :: "LexiconEntry list"
  mergeConflicts :: "MergeConflict list"
  mergeDetailedErrors :: nat
  showConflictResolution :: bool
  showMergeModal :: bool
  mergeSummary :: "MergeSummary option"

text \<open>The state right after the component is created (\<open>useState\<close>), with the entries \<open>es\<close> loaded.\<close>

definition stateWith :: "LexiconEntry list \<Rightarrow> AppState" where
  "stateWith es =
     \<lparr>entries = es, selectedIndex = None, mergeFileContent = [], mergeConflicts = [],
      mergeDetailedErrors = 0, showConflictResolution = False, showMergeModal = False,
      mergeSummary = None\<rparr>"

text \<open>
  \<open>JSON.stringify\<close> is injective on arrays of strings, so comparing the serialisations of
  the two sorted arrays is comparing the sorted lists.
\<close>

definition arePhoneticallyIdentical ::
  "(jsstring \<Rightarrow> jsstring) \<Rightarrow> LexiconEntry \<Rightarrow> LexiconEntry \<Rightarrow> bool" where
  "arePhoneticallyIdentical lc entry1 entry2 \<longleftrightarrow>
     sort (map lc (graphemes entry1)) = sort (map lc (graphemes entry2)) \<and>
     phoneme entry1 = phoneme entry2"

definition areIdentical ::
  "(jsstring \<Rightarrow> jsstring) \<Rightarrow> LexiconEntry \<Rightarrow> LexiconEntry \<Rightarrow> bool" where
  "areIdentical lc entry1 entry2 \<longleftrightarrow>
     sort (map lc (graphemes entry1)) = sort (map lc (graphemes entry2)) \<and>
     map_option lc (alias' entry1) = map_option lc (alias' entry2) \<and>
     phoneme entry1 = phoneme entry2"

text \<open>
  \<open>masterEntry.graphemes.some(mg => mergeGraphemes.includes(mg.toLowerCase()))\<close>, the test
  that \<open>analyzeConflicts\<close>, \<open>finalizeMerge\<close> and \<open>performMerge\<close> all use.
\<close>

definition sharesGrapheme ::
  "(jsstring \<Rightarrow> jsstring) \<Rightarrow> jsstring list \<Rightarrow> LexiconEntry \<Rightarrow> bool" where
  "sharesGrapheme lc mergeGraphemes m \<longleftrightarrow> (\<exists>mg \<in> set (graphemes m). lc mg \<in> set mergeGraphemes)"

text \<open>
  The body of the inner \<open>forEach\<close> of \<open>analyzeConflicts\<close>: the conflict records (none or one)
  that one matching master entry contributes.  The entries of the array are distinct
  objects, so \<open>masterEntries.indexOf(masterEntry)\<close> is the position the entry was taken from;
  the model carries that position along with the entry.
\<close>

definition conflictsOfMatch ::
  "(jsstring \<Rightarrow> jsstring) \<Rightarrow> LexiconEntry \<Rightarrow> nat \<Rightarrow> nat \<times> LexiconEntry \<Rightarrow> MergeConflict list" where
  "conflictsOfMatch lc e k im =
     (let mergeGraphemes = map lc (graphemes e); i = fst im; m = snd im;
          common = filter (\<lambda>mg. lc mg \<in> set mergeGraphemes) (graphemes m) in
      if areIdentical lc m e then []
      else if arePhoneticallyIdentical lc m e then
        [\<lparr>conflictType = AdditionalAlias, masterEntry = m, mergeEntry = e, masterIndex = i,
          mergeIndex = k, commonGraphemes = common, resolution = None\<rparr>]
      else
        (let isAdditionalAlias =
               (phoneme m = phoneme e \<and> map_option lc (alias' m) \<noteq> map_option lc (alias' e)) in
         [\<lparr>conflictType = (if isAdditionalAlias then AdditionalAlias else Conflict),
           masterEntry = m, mergeEntry = e, masterIndex = i, mergeIndex = k,
           commonGraphemes = common, resolution = None\<rparr>]))"

text \<open>The body of the outer \<open>forEach\<close>: all conflicts of the incoming entry at \<open>mergeIndex\<close> \<open>k\<close>.\<close>

definition conflictsOfEntry ::
  "(jsstring \<Rightarrow> jsstring) \<Rightarrow> LexiconEntry list \<Rightarrow> nat \<times> LexiconEntry \<Rightarrow> MergeConflict list" where
  "conflictsOfEntry lc masterEntries ke =
     (let k = fst ke; e = snd ke; mergeGraphemes = map lc (graphemes e);
          matchingMasterEntries =
            filter (\<lambda>im. sharesGrapheme lc mergeGraphemes (snd im)) (enumerate 0 masterEntries) in
      concat (map (conflictsOfMatch lc e k) matchingMasterEntries))"

definition findConflicts ::
  "(jsstring \<Rightarrow> jsstring) \<Rightarrow> LexiconEntry list \<Rightarrow> LexiconEntry list \<Rightarrow> MergeConflict list" where
  "findConflicts lc masterEntries mergeEntries =
     concat (map (conflictsOfEntry lc masterEntries) (enumerate 0 mergeEntries))"

text \<open>\<open>{ ...mergeEntry, isNew: true }\<close>\<close>

definition markNew :: "LexiconEntry \<Rightarrow> LexiconEntry" where
  "markNew e = e\<lparr>isNew := Some True\<rparr>"

text \<open>
  \<open>xs.sort((a, b) => f(a, b))\<close>: the sort is stable; insertion from the right puts an element
  before the first element it does not exceed.
\<close>

fun insertBy :: "('a \<Rightarrow> 'a \<Rightarrow> int) \<Rightarrow> 'a \<Rightarrow> 'a list \<Rightarrow> 'a list" where
  "insertBy f x [] = [x]"
| "insertBy f x (y # ys) = (if f x y \<le> 0 then x # y # ys else y # insertBy f x ys)"

fun sortBy :: "('a \<Rightarrow> 'a \<Rightarrow> int) \<Rightarrow> 'a list \<Rightarrow> 'a list" where
  "sortBy f [] = []"
| "sortBy f (x # xs) = insertBy f x (sortBy f xs)"

definition sortAlphabetically ::
  "(jsstring \<Rightarrow> jsstring \<Rightarrow> int) \<Rightarrow> (jsstring \<Rightarrow> jsstring) \<Rightarrow> LexiconEntry list \<Rightarrow>
   LexiconEntry list" where
  "sortAlphabetically cmp lc es =
     sortBy (\<lambda>a b. cmp (firstGraphemeKey lc a) (firstGraphemeKey lc b)) es"

text \<open>
  The \<open>forEach\<close> of \<open>performMerge\<close>, on the triple \<open>(masterEntries, newEntriesAdded,
  identicalSkipped)\<close>; \<open>masterEntries\<close> grows while the loop runs, and \<open>find\<close> returns the first
  entry that shares a grapheme.
\<close>

definition performMergeStep ::
  "(jsstring \<Rightarrow> jsstring) \<Rightarrow> LexiconEntry list \<times> nat \<times> nat \<Rightarrow> LexiconEntry \<Rightarrow>
   LexiconEntry list \<times> nat \<times> nat" where
  "performMergeStep lc acc e =
     (let masterEntries = fst acc; newEntriesAdded = fst (snd acc); skipped = snd (snd acc);
          mergeGraphemes = map lc (graphemes e) in
      if \<not> (\<exists>m \<in> set masterEntries. sharesGrapheme lc mergeGraphemes m)
      then (masterEntries @ [markNew e], Suc newEntriesAdded, skipped)
      else (case find (sharesGrapheme lc mergeGraphemes) masterEntries of
              None \<Rightarrow> (masterEntries, newEntriesAdded, skipped)
            | Some matchingEntry \<Rightarrow>
                if areIdentical lc matchingEntry e
                then (masterEntries, newEntriesAdded, Suc skipped)
                else (masterEntries, newEntriesAdded, skipped)))"

definition performMerge ::
  "(jsstring \<Rightarrow> jsstring \<Rightarrow> int) \<Rightarrow> (jsstring \<Rightarrow> jsstring) \<Rightarrow> AppState \<Rightarrow>
   LexiconEntry list \<Rightarrow> AppState" where
  "performMerge cmp lc s mergeEntries =
     (let r = foldl (performMergeStep lc) (entries s, 0, 0) mergeEntries in
      s\<lparr>entries := sortAlphabetically cmp lc (fst r),
        mergeSummary := Some \<lparr>newEntries = fst (snd r), conflictsResolved = 0,
                               identicalSkipped = int (snd (snd r)),
                               totalProcessed = length mergeEntries,
                               errorsFound = mergeDetailedErrors s\<rparr>,
        showMergeModal := False,
        mergeFileContent := [],
        mergeConflicts := []\<rparr>)"

definition analyzeConflicts ::
  "(jsstring \<Rightarrow> jsstring \<Rightarrow> int) \<Rightarrow> (jsstring \<Rightarrow> jsstring) \<Rightarrow> AppState \<Rightarrow>
   LexiconEntry list \<Rightarrow> AppState" where
  "analyzeConflicts cmp lc s mergeEntries =
     (let conflicts = findConflicts lc (entries s) mergeEntries in
      if length conflicts > 0
      then s\<lparr>mergeConflicts := conflicts, showConflictResolution := True, showMergeModal := False\<rparr>
      else performMerge cmp lc (s\<lparr>mergeConflicts := conflicts\<rparr>) mergeEntries)"

text \<open>\<open>resolveAllConflicts\<close>, the bulk resolution.\<close>

definition resolveAllConflicts :: "Resolution \<Rightarrow> AppState \<Rightarrow> AppState" where
  "resolveAllConflicts r s = s\<lparr>mergeConflicts := map (\<lambda>c. c\<lparr>resolution := Some r\<rparr>) (mergeConflicts s)\<rparr>"

text \<open>
  \<open>xs[i] = v\<close> on a JavaScript array: inside the array it overwrites, at the length it
  appends, beyond it the array gets holes, which a list of entries cannot hold (\<open>None\<close>).
\<close>

definition arrayStore :: "nat \<Rightarrow> 'a \<Rightarrow> 'a list \<Rightarrow> 'a list option" where
  "arrayStore i v xs =
     (if i < length xs then Some (xs[i := v])
      else if i = length xs then Some (xs @ [v])
      else None)"

text \<open>The entry that resolution \<open>'both'\<close> builds from a conflict.\<close>

definition combineBoth :: "(jsstring \<Rightarrow> jsstring) \<Rightarrow> MergeConflict \<Rightarrow> LexiconEntry" where
  "combineBoth lc c =
     (let masterGraphemesLower = map lc (graphemes (masterEntry c));
          uniqueMergeGraphemes =
            filter (\<lambda>g. lc g \<notin> set masterGraphemesLower) (graphemes (mergeEntry c));
          combinedGraphemes = graphemes (masterEntry c) @ uniqueMergeGraphemes in
      \<lparr>graphemes = combinedGraphemes,
       alias' = orElse (alias' (mergeEntry c)) (alias' (masterEntry c)),
       aliasSayAsType = None,
       phoneme = orElse (phoneme (mergeEntry c)) (phoneme (masterEntry c)),
       phonemeSayAsType = None,
       isNew = Some True\<rparr>)"

text \<open>
  The body of the first \<open>forEach\<close> of \<open>finalizeMerge\<close>, on the pair \<open>(resolvedEntries,
  conflictsResolved)\<close>.
\<close>

definition applyResolution ::
  "(jsstring \<Rightarrow> jsstring) \<Rightarrow> LexiconEntry list \<times> nat \<Rightarrow> MergeConflict \<Rightarrow>
   (LexiconEntry list \<times> nat) option" where
  "applyResolution lc acc c =
     (let resolvedEntries = fst acc; n = snd acc in
      case resolution c of
        Some Merge \<Rightarrow>
          map_option (\<lambda>r. (r, Suc n)) (arrayStore (masterIndex c) (markNew (mergeEntry c)) resolvedEntries)
      | Some Both \<Rightarrow>
          map_option (\<lambda>r. (r, Suc n)) (arrayStore (masterIndex c) (combineBoth lc c) resolvedEntries)
      | Some Master \<Rightarrow> Some (resolvedEntries, Suc n)
      | None \<Rightarrow> Some (resolvedEntries, n))"

fun applyResolutions ::
  "(jsstring \<Rightarrow> jsstring) \<Rightarrow> LexiconEntry list \<times> nat \<Rightarrow> MergeConflict list \<Rightarrow>
   (LexiconEntry list \<times> nat) option" where
  "applyResolutions lc acc [] = Some acc"
| "applyResolutions lc acc (c # cs) =
     (case applyResolution lc acc c of None \<Rightarrow> None | Some acc' \<Rightarrow> applyResolutions lc acc' cs)"

text \<open>The second \<open>forEach\<close> of \<open>finalizeMerge\<close>, on \<open>(resolvedEntries, newEntriesAdded)\<close>.\<close>

definition addNewEntry ::
  "(jsstring \<Rightarrow> jsstring) \<Rightarrow> AppState \<Rightarrow> LexiconEntry list \<times> nat \<Rightarrow> LexiconEntry \<Rightarrow>
   LexiconEntry list \<times> nat" where
  "addNewEntry lc s acc e =
     (let mergeGraphemes = map lc (graphemes e);
          hasConflict = (\<exists>c \<in> set (mergeConflicts s). sharesGrapheme lc mergeGraphemes (mergeEntry c)) in
      if \<not> hasConflict then
        (let hasMatchInMaster = (\<exists>m \<in> set (entries s). sharesGrapheme lc mergeGraphemes m) in
         if \<not> hasMatchInMaster then (fst acc @ [markNew e], Suc (snd acc)) else acc)
      else acc)"

definition finalizeMerge ::
  "(jsstring \<Rightarrow> jsstring \<Rightarrow> int) \<Rightarrow> (jsstring \<Rightarrow> jsstring) \<Rightarrow> AppState \<Rightarrow> AppState option" where
  "finalizeMerge cmp lc s =
     (case applyResolutions lc (entries s, 0) (mergeConflicts s) of
        None \<Rightarrow> None
      | Some (resolved, nResolved) \<Rightarrow>
          (let r = foldl (addNewEntry lc s) (resolved, 0) (mergeFileContent s);
               newEntriesAdded = snd r;
               skipped = int (length (mergeFileContent s)) - int (length (mergeConflicts s))
                         - int newEntriesAdded in
           Some (s\<lparr>entries := sortAlphabetically cmp lc (fst r),
                   mergeSummary := Some \<lparr>newEntries = newEntriesAdded,
                                          conflictsResolved = nResolved,
                                          identicalSkipped = skipped,
                                          totalProcessed = length (mergeFileContent s),
                                          errorsFound = 0\<rparr>,
                   showConflictResolution := False,
                   mergeFileContent := [],
                   mergeConflicts := []\<rparr>)))"


section \<open>Entry handlers\<close>

text \<open>
  What a handler does where the JavaScript leaves the model: \<open>TypeError\<close> is the exception
  of spreading \<open>undefined\<close>, \<open>Holes\<close> a store beyond the end of an array.
\<close>

datatype failure = TypeError | Holes

definition handleNewEntry ::
  "(jsstring \<Rightarrow> jsstring \<Rightarrow> int) \<Rightarrow> (jsstring \<Rightarrow> jsstring) \<Rightarrow> AppState \<Rightarrow> AppState" where
  "handleNewEntry cmp lc s =
     (let newEntry = \<lparr>graphemes = [NEW_ENTRY], alias' = Some [], aliasSayAsType = Some [],
                       phoneme = Some [], phonemeSayAsType = Some [], isNew = Some True\<rparr>;
          insertIndex = findInsertionIndex cmp lc (entries s) newEntry in
      s\<lparr>entries := spliceInsert insertIndex newEntry (entries s),
        selectedIndex := Some insertIndex\<rparr>)"

definition handleGraphemeChange ::
  "(jsstring \<Rightarrow> jsstring \<Rightarrow> int) \<Rightarrow> (jsstring \<Rightarrow> jsstring) \<Rightarrow> AppState \<Rightarrow> nat \<Rightarrow> jsstring \<Rightarrow>
   failure + AppState" where
  "handleGraphemeChange cmp lc s gIdx v =
     (case selectedIndex s of
        None \<Rightarrow> Inr s
      | Some sel \<Rightarrow>
          if length (entries s) \<le> sel then Inl TypeError
          else
            (case arrayStore gIdx v (graphemes (entries s ! sel)) of
               None \<Rightarrow> Inl Holes
             | Some gs \<Rightarrow>
                 (let updatedEntry = (entries s ! sel)\<lparr>graphemes := gs\<rparr> in
                  if gIdx = 0 \<and> trim v \<noteq> [] \<and> v \<noteq> NEW_ENTRY then
                    (let entriesWithoutCurrent = removeIndex sel (entries s);
                         insertIndex = findInsertionIndex cmp lc entriesWithoutCurrent updatedEntry in
                     Inr (s\<lparr>entries := spliceInsert insertIndex updatedEntry entriesWithoutCurrent,
                            selectedIndex := Some insertIndex\<rparr>))
                  else Inr (s\<lparr>entries := (entries s)[sel := updatedEntry]\<rparr>))))"

section \<open>Validation\<close>

text \<open>
  \<open>VALID_IPA_CHARS_REGEX\<close> is one character class: the ranges \<open>a-z\<close> and \<open>A-Z\<close>, then the
  characters below, in the order of the source (all in the Basic Multilingual Plane, so each
  is one code unit; the pattern has no \<open>u\<close> flag and matches code units).
\<close>

definition VALID_IPA_LITERALS :: "nat list" where
  "VALID_IPA_LITERALS =
    [593, 592, 594, 230, 595, 665, 946, 596, 597, 231, 599, 598, 240, 676, 675, 600, 602,
     603, 604, 605, 606, 607, 644, 609, 608, 610, 667, 614, 615, 295, 613, 668, 616, 618,
     669, 621, 620, 619, 622, 671, 625, 623, 624, 331, 627, 626, 628, 248, 629, 632, 339,
     630, 664, 633, 634, 638, 635, 640, 641, 637, 642, 643, 648, 679, 952, 649, 650, 651,
     11377, 652, 611, 612, 653, 967, 654, 655, 657, 656, 658, 660, 673, 661, 674, 448, 449,
     450, 451, 712, 716, 720, 721, 774, 778, 771, 770, 768, 769, 779, 783, 780, 770, 771,
     772, 773, 776, 775, 781, 782, 781, 779, 779, 778, 780, 768, 769, 770, 771, 772, 773,
     774, 775, 776, 777, 778, 779, 780, 781, 782, 772, 771, 770, 768, 769, 779, 783, 782,
     781, 775, 776, 773, 772, 780, 778, 774, 780, 781, 782, 783, 779, 778, 776, 775, 774,
     773, 772, 771, 770, 769, 768, 32, 46, 716, 712, 449, 448, 450, 451, 688, 690, 695,
     696, 736, 740, 8319, 737, 7496, 7511, 7495, 7503, 7501, 7584, 7615, 7499, 7590, 7591,
     7592, 7593, 7594, 7595, 7596, 7597, 7598, 7599, 7600, 7601, 7602, 7603, 7604, 7605,
     7606, 7607, 7608, 7609, 7610, 7611, 7612, 7613, 7614, 7615, 62, 60]"

definition isValidIPAChar :: "nat \<Rightarrow> bool" where
  "isValidIPAChar c \<longleftrightarrow>
     (97 \<le> c \<and> c \<le> 122) \<or> (65 \<le> c \<and> c \<le> 90) \<or> c \<in> set VALID_IPA_LITERALS"

text \<open>
  \<open>validateEntry\<close>.  Its second argument, the index of the entry, and the component state
  it reads are used for logging only.  \<open>new RegExp('^' + source + '+$').test(p)\<close> holds when
  \<open>p\<close> is not empty and all its code units are in the class.
\<close>

definition validateEntry :: "LexiconEntry \<Rightarrow> string list" where
  "validateEntry entry =
     (let hasValidGrapheme = (\<exists>g \<in> set (graphemes entry). trim g \<noteq> [] \<and> g \<noteq> NEW_ENTRY);
          errors1 = (if \<not> hasValidGrapheme then [''Must have at least one grapheme''] else []);
          aliasValue = trim (orEmpty (alias' entry));
          phonemeValue = trim (orEmpty (phoneme entry));
          hasAlias = (aliasValue \<noteq> []);
          hasPhoneme = (phonemeValue \<noteq> []);
          errors2 = (if \<not> hasAlias \<and> \<not> hasPhoneme
                     then errors1 @ [''Must have either an alias or phoneme''] else errors1);
          errors3 = (if hasPhoneme \<and> truthy (phoneme entry)
                     then (if \<not> (orEmpty (phoneme entry) \<noteq> [] \<and>
                                   list_all isValidIPAChar (orEmpty (phoneme entry)))
                           then errors2 @ [''Phoneme contains invalid characters (imported entries may need manual correction)'']
                           else errors2)
                     else errors2) in
      errors3)"

text \<open>
  The sentence of the specification on validation, as it reads: at least one grapheme that
  is non-empty after trimming and not the placeholder, a non-empty (after trim) alias or
  phoneme, and, if the phoneme is non-empty, every character of it in the class.
\<close>

definition specValid :: "LexiconEntry \<Rightarrow> bool" where
  "specValid entry \<longleftrightarrow>
     (\<exists>g \<in> set (graphemes entry). trim g \<noteq> [] \<and> g \<noteq> NEW_ENTRY) \<and>
     (trim (orEmpty (alias' entry)) \<noteq> [] \<or> trim (orEmpty (phoneme entry)) \<noteq> []) \<and>
     (orEmpty (phoneme entry) \<noteq> [] \<longrightarrow> list_all isValidIPAChar (orEmpty (phoneme entry)))"

section \<open>Reading a merge file\<close>

text \<open>
  What \<open>fast-xml-parser\<close> hands over for an element: a string, another primitive (a number
  or a boolean, of which only the truthiness matters), or an object, of which only the
  \<open>#text\<close> property matters.  An array counts as an object without \<open>#text\<close>.
\<close>

datatype prim = PString jsstring | PNonString bool

datatype xmlValue = Prim prim | Obj "prim option"

datatype graphemeField = GArray "xmlValue list" | GSingle xmlValue | GMissing

record rawLexeme =
  graphemeField :: graphemeField
  aliasField :: "xmlValue option"
  phonemeField :: "xmlValue option"

datatype entryError =
  InvalidGraphemeFormat | NoGraphemes | EmptyGraphemes | InvalidAliasFormat
  | InvalidPhonemeFormat | NoAliasOrPhoneme | ProblematicCharacters | ControlCharacters
  | LongGraphemes

definition primTruthy :: "prim \<Rightarrow> bool" where
  "primTruthy p = (case p of PString s \<Rightarrow> s \<noteq> [] | PNonString b \<Rightarrow> b)"

definition valueTruthy :: "xmlValue \<Rightarrow> bool" where
  "valueTruthy v = (case v of Prim p \<Rightarrow> primTruthy p | Obj _ \<Rightarrow> True)"

text \<open>\<open>v['#text'] || v\<close>, then \<open>typeof \<dots> === 'string'\<close>.\<close>

definition textOrSelf :: "xmlValue \<Rightarrow> xmlValue" where
  "textOrSelf v =
     (case v of
        Prim p \<Rightarrow> Prim p
      | Obj None \<Rightarrow> Obj None
      | Obj (Some p) \<Rightarrow> if primTruthy p then Prim p else Obj (Some p))"

definition asString :: "xmlValue \<Rightarrow> jsstring option" where
  "asString v = (case v of Prim (PString s) \<Rightarrow> Some s | _ \<Rightarrow> None)"

fun graphemeTexts :: "xmlValue list \<Rightarrow> entryError + jsstring list" where
  "graphemeTexts [] = Inr []"
| "graphemeTexts (g # gs) =
     (case asString (textOrSelf g) of
        None \<Rightarrow> Inl InvalidGraphemeFormat
      | Some t \<Rightarrow> (case graphemeTexts gs of Inl e \<Rightarrow> Inl e | Inr ts \<Rightarrow> Inr (t # ts)))"

definition extractGraphemes :: "graphemeField \<Rightarrow> entryError + jsstring list" where
  "extractGraphemes f =
     (case f of
        GArray gs \<Rightarrow> graphemeTexts gs
      | GSingle g \<Rightarrow> if valueTruthy g then graphemeTexts [g] else Inr []
      | GMissing \<Rightarrow> Inr [])"

definition extractText :: "entryError \<Rightarrow> xmlValue option \<Rightarrow> entryError + jsstring" where
  "extractText err f =
     (case f of
        None \<Rightarrow> Inr []
      | Some v \<Rightarrow>
          if valueTruthy v
          then (case asString (textOrSelf v) of None \<Rightarrow> Inl err | Some t \<Rightarrow> Inr t)
          else Inr [])"

text \<open>The \<open>try\<close> block of \<open>processMergeFile\<close> for one element; \<open>Inl\<close> is the error thrown.\<close>

definition parseMergeEntry :: "rawLexeme \<Rightarrow> entryError + LexiconEntry" where
  "parseMergeEntry lx =
     (case extractGraphemes (graphemeField lx) of
        Inl e \<Rightarrow> Inl e
      | Inr gs \<Rightarrow>
          if length gs = 0 then Inl NoGraphemes
          else if filter (\<lambda>g. g = [] \<or> trim g = []) gs \<noteq> [] then Inl EmptyGraphemes
          else
            (case extractText InvalidAliasFormat (aliasField lx) of
               Inl e \<Rightarrow> Inl e
             | Inr a \<Rightarrow>
                 (case extractText InvalidPhonemeFormat (phonemeField lx) of
                    Inl e \<Rightarrow> Inl e
                  | Inr p \<Rightarrow>
                      if a = [] \<and> p = [] then Inl NoAliasOrPhoneme
                      else if \<exists>c \<in> set (concat gs). c = 34 \<or> c = 38 then Inl ProblematicCharacters
                      else if \<exists>g \<in> set gs. \<exists>c \<in> set g. c \<le> 31 \<or> c = 127 then Inl ControlCharacters
                      else if filter (\<lambda>g. length g > 100) gs \<noteq> [] then Inl LongGraphemes
                      else Inr \<lparr>graphemes = gs, alias' = Some a, aliasSayAsType = None,
                                phoneme = Some p, phonemeSayAsType = None, isNew = None\<rparr>)))"

text \<open>
  The rest of \<open>processMergeFile\<close>, after the language check, on the elements of the file.
  All the \<open>set\<dots>\<close> calls of one event take effect together; \<open>analyzeConflicts\<close> reads the
  state of the event's render and never writes \<open>mergeDetailedErrors\<close>.
\<close>

definition parsedMergeEntries :: "rawLexeme list \<Rightarrow> LexiconEntry list" where
  "parsedMergeEntries allEntries =
     concat (map (\<lambda>lx. case parseMergeEntry lx of Inl _ \<Rightarrow> [] | Inr e \<Rightarrow> [e]) allEntries)"

definition detailedErrors :: "rawLexeme list \<Rightarrow> entryError list" where
  "detailedErrors allEntries =
     concat (map (\<lambda>lx. case parseMergeEntry lx of Inl err \<Rightarrow> [err] | Inr _ \<Rightarrow> []) allEntries)"

definition processMergeEntries ::
  "(jsstring \<Rightarrow> jsstring \<Rightarrow> int) \<Rightarrow> (jsstring \<Rightarrow> jsstring) \<Rightarrow> AppState \<Rightarrow> rawLexeme list \<Rightarrow>
   AppState" where
  "processMergeEntries cmp lc s allEntries =
     (let parsed = parsedMergeEntries allEntries;
          errs = detailedErrors allEntries;
          s1 = s\<lparr>mergeFileContent := parsed\<rparr>;
          s2 = (if length errs = 0 \<and> length parsed > 0
                then analyzeConflicts cmp lc s1 parsed else s1) in
      s2\<lparr>mergeDetailedErrors := length errs\<rparr>)"

section \<open>CSV and TSV codecs\<close>

text \<open>\<open>Array.prototype.join\<close> and \<open>String.prototype.split\<close> with a one-character separator.\<close>

fun joinWith :: "jsstring \<Rightarrow> jsstring list \<Rightarrow> jsstring" where
  "joinWith sep [] = []"
| "joinWith sep [x] = x"
| "joinWith sep (x # y # ys) = x @ sep @ joinWith sep (y # ys)"

fun splitOn :: "nat \<Rightarrow> jsstring \<Rightarrow> jsstring list" where
  "splitOn sep [] = [[]]"
| "splitOn sep (c # cs) =
     (if c = sep then [] # splitOn sep cs
      else (case splitOn sep cs of [] \<Rightarrow> [[c]] | x # xs \<Rightarrow> (c # x) # xs))"

definition expectedHeaders :: "jsstring list" where
  "expectedHeaders =
     [str ''grapheme'', str ''alias'', str ''alias_say_as'', str ''phoneme'', str ''phoneme_say_as'']"

text \<open>The four columns that every row of an entry shares: \<open>entry.alias || ''\<close> and so on.\<close>

definition sharedColumns :: "LexiconEntry \<Rightarrow> jsstring list" where
  "sharedColumns e =
     [orEmpty (alias' e), orEmpty (aliasSayAsType e), orEmpty (phoneme e),
      orEmpty (phonemeSayAsType e)]"

definition buildTSV :: "LexiconEntry list \<Rightarrow> jsstring" where
  "buildTSV es =
     (let header = joinWith [9] expectedHeaders;
          rows = concat (map (\<lambda>e. map (\<lambda>g. joinWith [9] (g # sharedColumns e)) (graphemes e)) es) in
      joinWith [10] (header # rows))"

text \<open>\<open>escapeCSV\<close>: a value with a comma, a quote, a line feed or a carriage return is quoted.\<close>

definition escapeCSV :: "jsstring \<Rightarrow> jsstring" where
  "escapeCSV v =
     (if v = [] then []
      else if 44 \<in> set v \<or> 34 \<in> set v \<or> 10 \<in> set v \<or> 13 \<in> set v
      then [34] @ concat (map (\<lambda>c. if c = 34 then [34, 34] else [c]) v) @ [34]
      else v)"

definition buildCSV :: "LexiconEntry list \<Rightarrow> jsstring" where
  "buildCSV es =
     (let header = joinWith [44] expectedHeaders;
          rows = concat (map (\<lambda>e. map (\<lambda>g. joinWith [44] (map escapeCSV (g # sharedColumns e)))
                                      (graphemes e)) es) in
      joinWith [10] (header # rows))"

text \<open>
  The \<open>while\<close> loop of \<open>parseCSVLine\<close> on the rest of the line from \<open>i\<close> on, with \<open>current\<close>,
  \<open>inQuotes\<close> and \<open>result\<close>.
\<close>

fun parseCSVLoop :: "jsstring \<Rightarrow> jsstring \<Rightarrow> bool \<Rightarrow> jsstring list \<Rightarrow> jsstring list" where
  "parseCSVLoop [] current inQuotes result = result @ [current]"
| "parseCSVLoop [c] current inQuotes result =
     (if c = 34 then parseCSVLoop [] current (\<not> inQuotes) result
      else if c = 44 \<and> \<not> inQuotes then parseCSVLoop [] [] inQuotes (result @ [current])
      else parseCSVLoop [] (current @ [c]) inQuotes result)"
| "parseCSVLoop (c # nextChar # rest) current inQuotes result =
     (if c = 34 then
        (if inQuotes \<and> nextChar = 34 then parseCSVLoop rest (current @ [34]) inQuotes result
         else parseCSVLoop (nextChar # rest) current (\<not> inQuotes) result)
      else if c = 44 \<and> \<not> inQuotes then parseCSVLoop (nextChar # rest) [] inQuotes (result @ [current])
      else parseCSVLoop (nextChar # rest) (current @ [c]) inQuotes result)"

definition parseCSVLine :: "jsstring \<Rightarrow> jsstring list" where
  "parseCSVLine line = parseCSVLoop line [] False []"

datatype parseError = TooFewRows | BadHeaders

text \<open>\<open>headers.indexOf(h)\<close>; \<open>None\<close> is \<open>-1\<close>.  \<open>columns[i]?.trim() || ''\<close>.\<close>

fun indexOf :: "'a \<Rightarrow> 'a list \<Rightarrow> nat option" where
  "indexOf h [] = None"
| "indexOf h (x # xs) = (if x = h then Some 0 else map_option Suc (indexOf h xs))"

definition column :: "jsstring list \<Rightarrow> nat option \<Rightarrow> jsstring" where
  "column columns i =
     (case i of None \<Rightarrow> []
      | Some n \<Rightarrow> if n < length columns then trim (columns ! n) else [])"

text \<open>The template string \<open>`${alias}|${aliasSayAs}|${phoneme}|${phonemeSayAs}`\<close>.\<close>

definition entryKey :: "jsstring \<Rightarrow> jsstring \<Rightarrow> jsstring \<Rightarrow> jsstring \<Rightarrow> jsstring" where
  "entryKey a asa p psa = a @ [124] @ asa @ [124] @ p @ [124] @ psa"

text \<open>
  The body of the \<open>forEach\<close> over the data rows.  \<open>entryMap\<close> is a \<open>Map\<close>, which keeps its keys
  in the order of their first insertion: a list of pairs with distinct keys.
\<close>

definition addRow ::
  "jsstring list \<Rightarrow> (jsstring \<times> LexiconEntry) list \<Rightarrow> jsstring list \<Rightarrow>
   (jsstring \<times> LexiconEntry) list" where
  "addRow headers entryMap columns =
     (let g = column columns (indexOf (str ''grapheme'') headers);
          a = column columns (indexOf (str ''alias'') headers);
          asa = column columns (indexOf (str ''alias_say_as'') headers);
          p = column columns (indexOf (str ''phoneme'') headers);
          psa = column columns (indexOf (str ''phoneme_say_as'') headers) in
      if g = [] then entryMap
      else
        (let k = entryKey a asa p psa;
             entryMap1 =
               (if k \<notin> set (map fst entryMap)
                then entryMap @ [(k, \<lparr>graphemes = [], alias' = orUndefined a,
                                      aliasSayAsType = orUndefined asa, phoneme = orUndefined p,
                                      phonemeSayAsType = orUndefined psa, isNew = None\<rparr>)]
                else entryMap) in
         map (\<lambda>ke. if fst ke = k then (fst ke, (snd ke)\<lparr>graphemes := graphemes (snd ke) @ [g]\<rparr>)
                    else ke) entryMap1))"

text \<open>
  \<open>parseTSV\<close> and \<open>parseCSV\<close> are the same text up to the function that splits a line (and
  the word TSV or CSV in the two error messages); \<open>parseDelimited\<close> is that text.
\<close>

definition isDataLine :: "jsstring \<Rightarrow> bool" where
  "isDataLine line \<longleftrightarrow> \<not> (case trim line of [] \<Rightarrow> False | c # _ \<Rightarrow> c = 35) \<and> trim line \<noteq> []"

definition parseDelimited ::
  "(jsstring \<Rightarrow> jsstring list) \<Rightarrow> jsstring \<Rightarrow> parseError + LexiconEntry list" where
  "parseDelimited splitLine content =
     (let cleanContent = (case content of [] \<Rightarrow> [] | c # cs \<Rightarrow> if c = 65279 then cs else content);
          lines = splitOn 10 cleanContent;
          dataLines = filter isDataLine lines in
      if length dataLines < 2 then Inl TooFewRows
      else
        (let headers = splitLine (hd dataLines) in
         if \<not> list_all (\<lambda>h. h \<in> set headers) expectedHeaders then Inl BadHeaders
         else Inr (map snd (foldl (\<lambda>entryMap line. addRow headers entryMap (splitLine line))
                                   [] (tl dataLines)))))"

definition parseTSV :: "jsstring \<Rightarrow> parseError + LexiconEntry list" where
  "parseTSV tsvContent = parseDelimited (splitOn 9) tsvContent"

definition parseCSV :: "jsstring \<Rightarrow> parseError + LexiconEntry list" where
  "parseCSV csvContent = parseDelimited parseCSVLine csvContent"

text \<open>
  What a decoded string field looks like: absent, or a string that is not empty and has no
  white space at either end.
\<close>

definition trimmedNonEmpty :: "jsstring \<Rightarrow> bool" where
  "trimmedNonEmpty v \<longleftrightarrow> v \<noteq> [] \<and> trim v = v"

definition decodedField :: "jsstring option \<Rightarrow> bool" where
  "decodedField v = (case v of None \<Rightarrow> True | Some t \<Rightarrow> trimmedNonEmpty t)"

definition decodedEntry :: "LexiconEntry \<Rightarrow> bool" where
  "decodedEntry e \<longleftrightarrow>
     list_all trimmedNonEmpty (graphemes e) \<and> decodedField (alias' e) \<and>
     decodedField (aliasSayAsType e) \<and> decodedField (phoneme e) \<and>
     decodedField (phonemeSayAsType e)"

text \<open>
  The round trip through a codec.  \<open>normalizeEntry\<close> is an entry as a decoder returns it: the
  same graphemes, every empty field absent, no \<open>isNew\<close>.  \<open>entryKeyOf\<close> is the key under which
  the rows of an entry are grouped.  A field survives the codecs when it has no white space
  at its ends and no line feed (and, for TSV, no tab); a grapheme moreover has to be
  non-empty and must not start with \<open>#\<close>, which would make its row a comment.
\<close>

definition normalizeEntry :: "LexiconEntry \<Rightarrow> LexiconEntry" where
  "normalizeEntry e =
     \<lparr>graphemes = graphemes e,
      alias' = orUndefined (orEmpty (alias' e)),
      aliasSayAsType = orUndefined (orEmpty (aliasSayAsType e)),
      phoneme = orUndefined (orEmpty (phoneme e)),
      phonemeSayAsType = orUndefined (orEmpty (phonemeSayAsType e)),
      isNew = None\<rparr>"

definition entryKeyOf :: "LexiconEntry \<Rightarrow> jsstring" where
  "entryKeyOf e =
     entryKey (orEmpty (alias' e)) (orEmpty (aliasSayAsType e)) (orEmpty (phoneme e))
       (orEmpty (phonemeSayAsType e))"

definition csvSafe :: "jsstring \<Rightarrow> bool" where
  "csvSafe v \<longleftrightarrow> trim v = v \<and> 10 \<notin> set v"

definition tsvSafe :: "jsstring \<Rightarrow> bool" where
  "tsvSafe v \<longleftrightarrow> trim v = v \<and> 10 \<notin> set v \<and> 9 \<notin> set v"

definition roundTrips :: "(jsstring \<Rightarrow> bool) \<Rightarrow> LexiconEntry \<Rightarrow> bool" where
  "roundTrips safe e \<longleftrightarrow>
     graphemes e \<noteq> [] \<and>
     list_all (\<lambda>g. safe g \<and> g \<noteq> [] \<and> hd g \<noteq> 35) (graphemes e) \<and>
     list_all safe (sharedColumns e)"

section \<open>XML codec\<close>

text \<open>
  \<open>buildXML\<close> builds a DOM document and hands it to the browser's \<open>XMLSerializer\<close>; the
  loaders read the text with \<open>XMLParser\<close> of fast-xml-parser.  Neither belongs to the
  repository: the functions below take them as the parameters \<open>serializeToString\<close> and
  \<open>parse\<close>, over any type \<open>'x\<close> of document texts.  The document is modelled by the list of
  its \<open>lexeme\<close> elements (the attributes of the root carry the language, not the entries): a
  \<open>grapheme\<close> child per grapheme, then an optional \<open>alias\<close> and an optional \<open>phoneme\<close> child,
  each with its text and an optional \<open>interpret-as\<close> attribute.
\<close>

record textElement =
  textContent :: jsstring
  interpretAs :: "jsstring option"

record lexemeElement =
  graphemeElements :: "jsstring list"
  aliasElement :: "textElement option"
  phonemeElement :: "textElement option"

text \<open>The \<open>value\<close>s of \<open>SAY_AS_OPTIONS\<close>, and \<open>validSayAsTypes\<close> as \<open>buildXML\<close> computes it.\<close>

definition SAY_AS_OPTIONS :: "jsstring list" where
  "SAY_AS_OPTIONS =
     [[], str ''characters'', str ''spell-out'', str ''cardinal'', str ''ordinal'',
      str ''digits'', str ''fraction'', str ''unit'', str ''date'', str ''time'',
      str ''telephone'', str ''address'', str ''name'', str ''net'', str ''currency'',
      str ''measure'', str ''verbatim'']"

definition validSayAsTypes :: "jsstring list" where
  "validSayAsTypes = filter (\<lambda>v. v \<noteq> []) SAY_AS_OPTIONS"

text \<open>
  The \<open>interpret-as\<close> attribute that \<open>buildXML\<close> sets: only for a say-as type that is
  truthy, not blank, and one of the known options.
\<close>

definition sayAsAttribute :: "jsstring option \<Rightarrow> jsstring option" where
  "sayAsAttribute t =
     (if truthy t \<and> trim (orEmpty t) \<noteq> [] \<and> orEmpty t \<noteq> []
      then (if orEmpty t \<in> set validSayAsTypes then Some (orEmpty t) else None)
      else None)"

text \<open>The \<open>alias\<close> or \<open>phoneme\<close> child: created \<open>if (entry.alias)\<close>, \<open>if (entry.phoneme)\<close>.\<close>

definition textChild :: "jsstring option \<Rightarrow> jsstring option \<Rightarrow> textElement option" where
  "textChild v sayAs =
     (if truthy v then Some \<lparr>textContent = orEmpty v, interpretAs = sayAsAttribute sayAs\<rparr>
      else None)"

definition lexemeOf :: "LexiconEntry \<Rightarrow> lexemeElement" where
  "lexemeOf entry =
     \<lparr>graphemeElements = graphemes entry,
      aliasElement = textChild (alias' entry) (aliasSayAsType entry),
      phonemeElement = textChild (phoneme entry) (phonemeSayAsType entry)\<rparr>"

text \<open>
  \<open>buildXML\<close>.  The XML declaration that it puts in front of a text without one is part of
  the text and has no entry in it.
\<close>

definition buildXML :: "(lexemeElement list \<Rightarrow> 'x) \<Rightarrow> LexiconEntry list \<Rightarrow> 'x" where
  "buildXML serializeToString es = serializeToString (map lexemeOf es)"

text \<open>
  What the parser hands over (options \<open>ignoreAttributes: false\<close>, \<open>attributeNamePrefix: "@_"\<close>,
  \<open>textNodeName: "#text"\<close>).  A value is a primitive or an object, of which the loaders read
  the properties \<open>#text\<close> and \<open>@_interpret-as\<close>; a property that may hold one value, an array
  or nothing is a \<open>field\<close>; an item of the lexicon is an object with the properties
  \<open>grapheme\<close>, \<open>alias\<close> and \<open>phoneme\<close>, or a primitive.
\<close>

datatype parsedValue = PPrim prim | PElem "prim option" "jsstring option"

datatype 'a field = FArray "'a list" | FSingle 'a | FMissing

record parsedLexeme =
  pGrapheme :: "parsedValue field"
  pAlias :: "parsedValue option"
  pPhoneme :: "parsedValue option"

datatype lexemeItem = ItemObject parsedLexeme | ItemPrim prim

record parsedLexicon =
  pEntry :: "lexemeItem field"
  pLexeme :: "lexemeItem field"

text \<open>
  The loaders store what they read without a check of its type.  Where that is not a
  string, the entry would hold a number or an object, which \<open>LexiconEntry\<close> has no value
  for: \<open>NotAString\<close>.  \<open>InvalidLexicon\<close> and \<open>NoEntries\<close> are the errors thrown.
\<close>

datatype loadError = InvalidLexicon | NoEntries | NotAString

definition primString :: "prim \<Rightarrow> loadError + jsstring" where
  "primString p = (case p of PString t \<Rightarrow> Inr t | PNonString _ \<Rightarrow> Inl NotAString)"

text \<open>\<open>g['#text'] || g\<close>\<close>

definition graphemeText :: "parsedValue \<Rightarrow> loadError + jsstring" where
  "graphemeText g =
     (case g of
        PPrim p \<Rightarrow> primString p
      | PElem None _ \<Rightarrow> Inl NotAString
      | PElem (Some p) _ \<Rightarrow> if primTruthy p then primString p else Inl NotAString)"

fun graphemeTextList :: "parsedValue list \<Rightarrow> loadError + jsstring list" where
  "graphemeTextList [] = Inr []"
| "graphemeTextList (g # gs) =
     (case graphemeText g of
        Inl e \<Rightarrow> Inl e
      | Inr t \<Rightarrow> (case graphemeTextList gs of Inl e \<Rightarrow> Inl e | Inr ts \<Rightarrow> Inr (t # ts)))"

definition parsedTruthy :: "parsedValue \<Rightarrow> bool" where
  "parsedTruthy v = (case v of PPrim p \<Rightarrow> primTruthy p | PElem _ _ \<Rightarrow> True)"

text \<open>
  \<open>Array.isArray(lex.grapheme) ? lex.grapheme.map(g => g['#text'] || g)
    : lex.grapheme ? [lex.grapheme['#text'] || lex.grapheme] : []\<close>
\<close>

definition loadGraphemes :: "parsedValue field \<Rightarrow> loadError + jsstring list" where
  "loadGraphemes f =
     (case f of
        FArray gs \<Rightarrow> graphemeTextList gs
      | FSingle g \<Rightarrow> if parsedTruthy g then graphemeTextList [g] else Inr []
      | FMissing \<Rightarrow> Inr [])"

text \<open>\<open>lex.alias?.['#text'] || lex.alias || ''\<close> and \<open>lex.alias?.['@_interpret-as'] || ''\<close>\<close>

definition loadText :: "parsedValue option \<Rightarrow> loadError + jsstring" where
  "loadText f =
     (case f of
        None \<Rightarrow> Inr []
      | Some (PPrim p) \<Rightarrow> if primTruthy p then primString p else Inr []
      | Some (PElem None _) \<Rightarrow> Inl NotAString
      | Some (PElem (Some p) _) \<Rightarrow> if primTruthy p then primString p else Inl NotAString)"

definition loadInterpretAs :: "parsedValue option \<Rightarrow> jsstring" where
  "loadInterpretAs f =
     (case f of
        None \<Rightarrow> []
      | Some (PPrim _) \<Rightarrow> []
      | Some (PElem _ a) \<Rightarrow> orEmpty a)"

text \<open>
  The object literal that both loaders build for an item (\<open>handleSelectBlob\<close> and the XML
  branch of the import handler have the same text).  Every property of a primitive item is
  \<open>undefined\<close>.
\<close>

definition lexemeToEntry :: "lexemeItem \<Rightarrow> loadError + LexiconEntry" where
  "lexemeToEntry item =
     (let lx = (case item of
                  ItemObject l \<Rightarrow> l
                | ItemPrim _ \<Rightarrow> \<lparr>pGrapheme = FMissing, pAlias = None, pPhoneme = None\<rparr>) in
      case loadGraphemes (pGrapheme lx) of
        Inl e \<Rightarrow> Inl e
      | Inr gs \<Rightarrow>
          (case loadText (pAlias lx) of
             Inl e \<Rightarrow> Inl e
           | Inr a \<Rightarrow>
               (case loadText (pPhoneme lx) of
                  Inl e \<Rightarrow> Inl e
                | Inr p \<Rightarrow>
                    Inr \<lparr>graphemes = gs, alias' = Some a,
                         aliasSayAsType = Some (loadInterpretAs (pAlias lx)),
                         phoneme = Some p,
                         phonemeSayAsType = Some (loadInterpretAs (pPhoneme lx)),
                         isNew = None\<rparr>)))"

fun lexemesToEntries :: "lexemeItem list \<Rightarrow> loadError + LexiconEntry list" where
  "lexemesToEntries [] = Inr []"
| "lexemesToEntries (item # items) =
     (case lexemeToEntry item of
        Inl e \<Rightarrow> Inl e
      | Inr x \<Rightarrow> (case lexemesToEntries items of Inl e \<Rightarrow> Inl e | Inr xs \<Rightarrow> Inr (x # xs)))"

definition itemTruthy :: "lexemeItem \<Rightarrow> bool" where
  "itemTruthy item = (case item of ItemObject _ \<Rightarrow> True | ItemPrim p \<Rightarrow> primTruthy p)"

text \<open>\<open>Array.isArray(x) ? x : x ? [x] : []\<close>, and \<open>[...entries, ...lexemes]\<close>.\<close>

definition itemsOf :: "lexemeItem field \<Rightarrow> lexemeItem list" where
  "itemsOf f =
     (case f of
        FArray xs \<Rightarrow> xs
      | FSingle x \<Rightarrow> if itemTruthy x then [x] else []
      | FMissing \<Rightarrow> [])"

definition combinedEntries :: "parsedLexicon \<Rightarrow> lexemeItem list" where
  "combinedEntries lexicon = itemsOf (pEntry lexicon) @ itemsOf (pLexeme lexicon)"

text \<open>
  The entries that \<open>handleSelectBlob\<close> sets for the downloaded text, and those that the
  import handler sets for an XML file.  \<open>parse\<close> stands for the parser followed by the
  handler's lookup of the lexicon in what the parser returns (\<open>xml.lexicon\<close>; the import
  handler also looks into an array and takes the root itself when it has no \<open>lexicon\<close>
  property), \<open>None\<close> when the parser throws or no lexicon is found.  The import handler
  throws when the lexicon has no item.
\<close>

definition loadLexicon :: "('x \<Rightarrow> parsedLexicon option) \<Rightarrow> 'x \<Rightarrow> loadError + LexiconEntry list" where
  "loadLexicon parse xmlString =
     (case parse xmlString of
        None \<Rightarrow> Inl InvalidLexicon
      | Some lexicon \<Rightarrow> lexemesToEntries (combinedEntries lexicon))"

definition importLexicon :: "('x \<Rightarrow> parsedLexicon option) \<Rightarrow> 'x \<Rightarrow> loadError + LexiconEntry list" where
  "importLexicon parse xmlString =
     (case parse xmlString of
        None \<Rightarrow> Inl InvalidLexicon
      | Some lexicon \<Rightarrow>
          if length (itemsOf (pEntry lexicon)) = 0 \<and> length (itemsOf (pLexeme lexicon)) = 0
          then Inl NoEntries
          else lexemesToEntries (combinedEntries lexicon))"

text \<open>
  The parser's reading of a serialised document whose texts it leaves as they are: an
  element with text only is a string, an element with an attribute is an object with
  \<open>#text\<close> and the attribute, children of one name are an array when there are several.
  (The parser trims texts and reads numerals as numbers; such texts are not left as they
  are.)
\<close>

definition fieldOf :: "'a list \<Rightarrow> 'a field" where
  "fieldOf xs = (case xs of [] \<Rightarrow> FMissing | [x] \<Rightarrow> FSingle x | _ \<Rightarrow> FArray xs)"

definition parsedText :: "textElement \<Rightarrow> parsedValue" where
  "parsedText t =
     (case interpretAs t of
        None \<Rightarrow> PPrim (PString (textContent t))
      | Some a \<Rightarrow> PElem (Some (PString (textContent t))) (Some a))"

definition parsedLexemeOf :: "lexemeElement \<Rightarrow> lexemeItem" where
  "parsedLexemeOf l =
     ItemObject \<lparr>pGrapheme = fieldOf (map (\<lambda>g. PPrim (PString g)) (graphemeElements l)),
                 pAlias = map_option parsedText (aliasElement l),
                 pPhoneme = map_option parsedText (phonemeElement l)\<rparr>"

definition parsedForm :: "lexemeElement list \<Rightarrow> parsedLexicon" where
  "parsedForm doc = \<lparr>pEntry = FMissing, pLexeme = fieldOf (map parsedLexemeOf doc)\<rparr>"

text \<open>
  An entry as the XML loaders return it, and the entries that \<open>buildXML\<close> writes out in
  full: a grapheme is not empty, and a say-as type is empty, or is a known option set on a
  non-empty alias or phoneme.
\<close>

definition normalizeXML :: "LexiconEntry \<Rightarrow> LexiconEntry" where
  "normalizeXML e =
     \<lparr>graphemes = graphemes e,
      alias' = Some (orEmpty (alias' e)),
      aliasSayAsType = Some (orEmpty (aliasSayAsType e)),
      phoneme = Some (orEmpty (phoneme e)),
      phonemeSayAsType = Some (orEmpty (phonemeSayAsType e)),
      isNew = None\<rparr>"

definition sayAsKept :: "jsstring option \<Rightarrow> jsstring option \<Rightarrow> bool" where
  "sayAsKept v t \<longleftrightarrow> orEmpty t = [] \<or> (truthy v \<and> orEmpty t \<in> set validSayAsTypes)"

definition xmlSafe :: "LexiconEntry \<Rightarrow> bool" where
  "xmlSafe e \<longleftrightarrow>
     graphemes e \<noteq> [] \<and> list_all (\<lambda>g. g \<noteq> []) (graphemes e) \<and>
     sayAsKept (alias' e) (aliasSayAsType e) \<and> sayAsKept (phoneme e) (phonemeSayAsType e)"

section \<open>Properties of the ordering engine\<close>

lemma findInsertionLoop_takeWhile:
  "findInsertionLoop cmp lc n es i =
     i + length (takeWhile (\<lambda>e. \<not> cmp n (firstGraphemeKey lc e) < 0) es)"
  by (induction es arbitrary: i) auto

lemma findInsertionIndex_takeWhile:
  "findInsertionIndex cmp lc es e =
     length (takeWhile (\<lambda>x. \<not> cmp (firstGraphemeKey lc e) (firstGraphemeKey lc x) < 0) es)"
  by (simp add: findInsertionIndex_def findInsertionLoop_takeWhile)

lemma codeUnitCompare_collation: "isCollation codeUnitCompare"
  unfolding isCollation_def codeUnitCompare_def by (auto split: if_splits)

lemma sorted_wrt_removeIndex: "sorted_wrt R xs \<Longrightarrow> sorted_wrt R (removeIndex i xs)"
proof -
  assume s: "sorted_wrt R xs"
  have "sorted_wrt R (take i xs @ drop i xs)" using s by simp
  then have cross: "\<forall>x \<in> set (take i xs). \<forall>y \<in> set (drop i xs). R x y"
    unfolding sorted_wrt_append by blast
  have sub: "set (drop (Suc i) xs) \<subseteq> set (drop i xs)"
    by (rule set_drop_subset_set_drop) simp
  have "sorted_wrt R (take i xs)" "sorted_wrt R (drop (Suc i) xs)"
    using s by (simp_all add: sorted_wrt_take sorted_wrt_drop)
  then show ?thesis
    unfolding removeIndex_def sorted_wrt_append using cross sub by blast
qed

lemma insert_keeps_sorted:
  assumes col: "isCollation cmp" and srt: "sortedByKey cmp lc es"
  shows "sortedByKey cmp lc (spliceInsert (findInsertionIndex cmp lc es e) e es)"
proof -
  let ?k = "firstGraphemeKey lc"
  let ?P = "\<lambda>x. \<not> cmp (?k e) (?k x) < 0"
  let ?R = "\<lambda>a b. cmp (?k a) (?k b) \<le> 0"
  have anti: "\<And>a b. (cmp a b < 0) = (0 < cmp b a)"
    and trans: "\<And>a b c. cmp a b \<le> 0 \<Longrightarrow> cmp b c \<le> 0 \<Longrightarrow> cmp a c \<le> 0"
    using col unfolding isCollation_def by blast+
  have split: "spliceInsert (findInsertionIndex cmp lc es e) e es = takeWhile ?P es @ e # dropWhile ?P es"
    by (simp add: spliceInsert_def findInsertionIndex_takeWhile takeWhile_eq_take[symmetric] dropWhile_eq_drop[symmetric])
  have s0: "sorted_wrt ?R (takeWhile ?P es @ dropWhile ?P es)"
    using srt by (simp add: sortedByKey_def)
  have before: "?R x e" if "x \<in> set (takeWhile ?P es)" for x
  proof -
    have "?P x" using that by (rule set_takeWhileD[THEN conjunct2])
    then have "\<not> 0 < cmp (?k x) (?k e)" using anti[of "?k x" "?k e"] anti[of "?k e" "?k x"] by auto
    then show ?thesis by simp
  qed
  have after: "?R e y" if y: "y \<in> set (dropWhile ?P es)" for y
  proof (cases "dropWhile ?P es")
    case Nil
    from y show ?thesis unfolding Nil by simp
  next
    case (Cons h t)
    have "\<not> ?P h" using hd_dropWhile[of ?P es] Cons by auto
    then have eh: "cmp (?k e) (?k h) \<le> 0" by simp
    have "sorted_wrt ?R (h # t)" using s0 Cons unfolding sorted_wrt_append by simp
    then have "y = h \<or> ?R h y" using y Cons by auto
    then show ?thesis using eh trans by blast
  qed
  show ?thesis
    unfolding sortedByKey_def split
    using s0 before after unfolding sorted_wrt_append by auto
qed

text \<open>
  C5 (as the specification states it, refuted).  The specification reads
  \<open>findInsertionIndex\<close> as the first index whose key is greater than or equal to the new
  key.  With one entry \<open>cat\<close> in the list and a new entry \<open>cat\<close>, the function returns 1,
  where that reading gives 0: the test of the loop is \<open>localeCompare < 0\<close>, so an entry with an
  equal key is passed over.
\<close>

theorem findInsertionIndex_first_ge_counterexample:
  "findInsertionIndex codeUnitCompare lowerASCII
     [plainEntry [str ''cat''] None (Some (str ''kat''))]
     (plainEntry [str ''cat''] None (Some (str ''kat''))) = 1 \<and>
   specFirstIndexGE codeUnitCompare lowerASCII
     (firstGraphemeKey lowerASCII (plainEntry [str ''cat''] None (Some (str ''kat''))))
     [plainEntry [str ''cat''] None (Some (str ''kat''))] 0 = 0"
  by (simp add: findInsertionIndex_def firstGraphemeKey_def plainEntry_def codeUnitCompare_def)

text \<open>
  C5 (amended).  \<open>findInsertionIndex\<close> returns the first index whose entry's lowercased first
  grapheme is strictly greater than the new entry's (the new key compares below it), or the
  length of the list if there is none: it is at most the length, no entry before it is
  strictly greater, and the entry at it, if there is one, is.
\<close>

theorem findInsertionIndex_first_greater:
  "findInsertionIndex cmp lc es e \<le> length es \<and>
   (\<forall>j < findInsertionIndex cmp lc es e.
      \<not> cmp (firstGraphemeKey lc e) (firstGraphemeKey lc (es ! j)) < 0) \<and>
   (findInsertionIndex cmp lc es e < length es \<longrightarrow>
      cmp (firstGraphemeKey lc e)
          (firstGraphemeKey lc (es ! findInsertionIndex cmp lc es e)) < 0)"
proof -
  let ?P = "\<lambda>x. \<not> cmp (firstGraphemeKey lc e) (firstGraphemeKey lc x) < 0"
  have k: "findInsertionIndex cmp lc es e = length (takeWhile ?P es)"
    by (rule findInsertionIndex_takeWhile)
  have a: "length (takeWhile ?P es) \<le> length es" by (rule length_takeWhile_le)
  have b: "?P (es ! j)" if "j < length (takeWhile ?P es)" for j
  proof -
    have "takeWhile ?P es ! j \<in> set (takeWhile ?P es)" using that by simp
    then have "?P (takeWhile ?P es ! j)" by (rule set_takeWhileD[THEN conjunct2])
    then show ?thesis using that by (simp add: takeWhile_nth)
  qed
  have c: "\<not> ?P (es ! length (takeWhile ?P es))" if "length (takeWhile ?P es) < length es"
    using that by (rule nth_length_takeWhile)
  show ?thesis unfolding k using a b c by blast
qed

theorem findInsertionIndex_first_greater_witness:
  "findInsertionIndex codeUnitCompare lowerASCII
     [plainEntry [str ''apple''] None None, plainEntry [str ''Bat''] None None,
      plainEntry [str ''cat''] None None]
     (plainEntry [str ''bat''] None None) = 2 \<and>
   \<not> codeUnitCompare (str ''bat'') (lowerASCII (str ''Bat'')) < 0 \<and>
   codeUnitCompare (str ''bat'') (lowerASCII (str ''cat'')) < 0"
  using findInsertionIndex_first_greater [of codeUnitCompare lowerASCII
     "[plainEntry [str ''apple''] None None, plainEntry [str ''Bat''] None None,
       plainEntry [str ''cat''] None None]" "plainEntry [str ''bat''] None None"]
  by (simp add: findInsertionIndex_def firstGraphemeKey_def plainEntry_def codeUnitCompare_def
      lowerASCII_def str_def)

text \<open>
  C6.  Sort invariant: for an entry list in non-decreasing case-insensitive first-grapheme
  order, inserting any entry at the index computed by \<open>findInsertionIndex\<close> gives a list in
  that order again; so does \<open>handleNewEntry\<close>, and so does \<open>handleGraphemeChange\<close> when the
  first grapheme of the selected entry is renamed to a non-blank value other than the
  placeholder (the entry is removed and reinserted).  The comparison is any total preorder.
\<close>

theorem sort_invariant:
  "isCollation cmp \<and> sortedByKey cmp lc (entries s) \<longrightarrow>
     sortedByKey cmp lc (spliceInsert (findInsertionIndex cmp lc (entries s) e) e (entries s)) \<and>
     sortedByKey cmp lc (entries (handleNewEntry cmp lc s)) \<and>
     (selectedIndex s = Some sel \<and> sel < length (entries s) \<and> trim v \<noteq> [] \<and> v \<noteq> NEW_ENTRY \<longrightarrow>
        (\<exists>s'. handleGraphemeChange cmp lc s 0 v = Inr s' \<and> sortedByKey cmp lc (entries s')))"
proof (intro impI conjI; (elim conjE)?)
  assume col: "isCollation cmp" and srt: "sortedByKey cmp lc (entries s)"
  show "sortedByKey cmp lc (spliceInsert (findInsertionIndex cmp lc (entries s) e) e (entries s))"
    using col srt by (rule insert_keeps_sorted)
next
  assume col: "isCollation cmp" and srt: "sortedByKey cmp lc (entries s)"
  show "sortedByKey cmp lc (entries (handleNewEntry cmp lc s))"
    using insert_keeps_sorted[OF col srt] by (simp add: handleNewEntry_def Let_def)
next
  assume col: "isCollation cmp" and srt: "sortedByKey cmp lc (entries s)"
    and sel: "selectedIndex s = Some sel" "sel < length (entries s)"
    and v: "trim v \<noteq> []" "v \<noteq> NEW_ENTRY"
  have rem: "sortedByKey cmp lc (removeIndex sel (entries s))"
    using srt unfolding sortedByKey_def by (rule sorted_wrt_removeIndex)
  obtain gs where gs: "arrayStore 0 v (graphemes (entries s ! sel)) = Some gs"
    by (cases "graphemes (entries s ! sel)") (simp_all add: arrayStore_def)
  show "\<exists>s'. handleGraphemeChange cmp lc s 0 v = Inr s' \<and> sortedByKey cmp lc (entries s')"
    using insert_keeps_sorted[OF col rem] sel v gs
    by (simp add: handleGraphemeChange_def Let_def)
qed

theorem sort_invariant_witness:
  "isCollation codeUnitCompare \<and>
   sortedByKey codeUnitCompare lowerASCII
     (entries ((stateWith [plainEntry [str ''apple''] None None, plainEntry [str ''cat''] None None])
                 \<lparr>selectedIndex := Some 1\<rparr>)) \<and>
   sortedByKey codeUnitCompare lowerASCII
     (entries (handleNewEntry codeUnitCompare lowerASCII
        ((stateWith [plainEntry [str ''apple''] None None, plainEntry [str ''cat''] None None])
           \<lparr>selectedIndex := Some 1\<rparr>))) \<and>
   (\<exists>s'. handleGraphemeChange codeUnitCompare lowerASCII
        ((stateWith [plainEntry [str ''apple''] None None, plainEntry [str ''cat''] None None])
           \<lparr>selectedIndex := Some 1\<rparr>) 0 (str ''Ant'') = Inr s' \<and>
      sortedByKey codeUnitCompare lowerASCII (entries s'))"
proof -
  let ?s = "(stateWith [plainEntry [str ''apple''] None None, plainEntry [str ''cat''] None None])
              \<lparr>selectedIndex := Some 1\<rparr>"
  have h1: "isCollation codeUnitCompare" by (rule codeUnitCompare_collation)
  have h2: "sortedByKey codeUnitCompare lowerASCII (entries ?s)"
    by (simp add: sortedByKey_def stateWith_def plainEntry_def firstGraphemeKey_def
        codeUnitCompare_def lowerASCII_def str_def)
  have h3: "selectedIndex ?s = Some 1 \<and> 1 < length (entries ?s)"
    by (simp add: stateWith_def)
  have h4: "trim (str ''Ant'') \<noteq> [] \<and> str ''Ant'' \<noteq> NEW_ENTRY"
    by (simp add: trim_def isWhiteSpace_def str_def NEW_ENTRY_def)
  show ?thesis
    using h1 h2 h3 h4
      sort_invariant [of codeUnitCompare lowerASCII ?s "plainEntry [str ''bat''] None None" 1 "str ''Ant''"]
    by blast
qed

section \<open>Properties of the merge engine\<close>

lemmas merge_eval =
  analyzeConflicts_def performMerge_def performMergeStep_def findConflicts_def
  conflictsOfEntry_def conflictsOfMatch_def areIdentical_def arePhoneticallyIdentical_def
  sharesGrapheme_def plainEntry_def stateWith_def lowerASCII_def str_def kaet_def
  sortAlphabetically_def markNew_def Let_def

text \<open>
  In Scenario B with one alias \<open>a\<close> on both sides (absent, empty or not), \<open>areIdentical\<close>
  holds, since it lowercases the graphemes: no conflict record is produced, the merge
  completes at once, nothing is added and the incoming entry is counted as one identical
  entry skipped.
\<close>

lemma scenarioB_identical:
  "findConflicts lowerASCII [plainEntry [str ''Cat''] a (Some kaet)]
      [plainEntry [str ''cat''] a (Some kaet)] = [] \<and>
   analyzeConflicts cmp lowerASCII (stateWith [plainEntry [str ''Cat''] a (Some kaet)])
      [plainEntry [str ''cat''] a (Some kaet)] =
     (stateWith [plainEntry [str ''Cat''] a (Some kaet)])
       \<lparr>mergeSummary := Some \<lparr>newEntries = 0, conflictsResolved = 0, identicalSkipped = 1,
                               totalProcessed = 1, errorsFound = 0\<rparr>\<rparr>"
  by (simp add: merge_eval)

text \<open>
  The alias is compared as it is stored.  With the alias absent in the master entry and the
  empty string in the incoming one, \<open>areIdentical\<close> fails and the comparison gives one
  \<open>additional_alias\<close> record.  The loaders and \<open>processMergeFile\<close> both store a missing alias
  as the empty string, so the two do not meet in a lexicon that was loaded.
\<close>

lemma scenarioB_mixed_alias:
  "map conflictType
     (findConflicts lowerASCII [plainEntry [str ''Cat''] None (Some kaet)]
        [plainEntry [str ''cat''] (Some []) (Some kaet)]) = [AdditionalAlias]"
  by (simp add: merge_eval)

lemmas merge_file_eval =
  parseMergeEntry_def extractGraphemes_def extractText_def valueTruthy_def primTruthy_def
  textOrSelf_def asString_def parsedMergeEntries_def detailedErrors_def
  processMergeEntries_def trim_def isWhiteSpace_def

text \<open>
  C1.  Scenario B as the application receives it.  The master lexicon holds \<open>Cat\<close> with the
  phoneme \<open>kaet\<close>, loaded from a file, so that its alias and say-as types are the empty
  string; the merge file holds one lexeme \<open>cat\<close> with the same phoneme and no alias, which
  \<open>processMergeFile\<close> reads as the entry \<open>cat\<close> with the empty alias.  The two entries are
  phonetically identical, the case for which \<open>analyzeConflicts\<close> has a branch that records
  an \<open>additional_alias\<close> conflict (in the words of its comments: different case but same
  phoneme, shown as a conflict for user decision).  But \<open>areIdentical\<close>, which is tested
  first, lowercases the graphemes too, so the branch is not reached for a difference of
  case only: no conflict is recorded, the merge completes at once and the incoming entry is
  counted as identical and skipped, where the specification expects one conflict of type
  \<open>additional_alias\<close>.
\<close>

theorem scenarioB_no_conflict:
  "parsedMergeEntries
     [\<lparr>graphemeField = GSingle (Prim (PString (str ''cat''))), aliasField = None,
       phonemeField = Some (Prim (PString kaet))\<rparr>] =
     [plainEntry [str ''cat''] (Some []) (Some kaet)] \<and>
   arePhoneticallyIdentical lowerASCII
     \<lparr>graphemes = [str ''Cat''], alias' = Some [], aliasSayAsType = Some [],
      phoneme = Some kaet, phonemeSayAsType = Some [], isNew = None\<rparr>
     (plainEntry [str ''cat''] (Some []) (Some kaet)) \<and>
   processMergeEntries cmp lowerASCII
     (stateWith [\<lparr>graphemes = [str ''Cat''], alias' = Some [], aliasSayAsType = Some [],
                  phoneme = Some kaet, phonemeSayAsType = Some [], isNew = None\<rparr>])
     [\<lparr>graphemeField = GSingle (Prim (PString (str ''cat''))), aliasField = None,
       phonemeField = Some (Prim (PString kaet))\<rparr>] =
     (stateWith [\<lparr>graphemes = [str ''Cat''], alias' = Some [], aliasSayAsType = Some [],
                  phoneme = Some kaet, phonemeSayAsType = Some [], isNew = None\<rparr>])
       \<lparr>mergeSummary := Some \<lparr>newEntries = 0, conflictsResolved = 0, identicalSkipped = 1,
                               totalProcessed = 1, errorsFound = 0\<rparr>\<rparr>"
  by (simp add: merge_file_eval merge_eval)





text \<open>
  C3 (as the specification states it, refuted).  Merge idempotence for every master list:
  with two master entries that share the grapheme \<open>a\<close> and differ in the phoneme, merging the
  list into itself yields two conflict records and the merge does not complete.
\<close>

theorem merge_idempotence_counterexample:
  "length (mergeConflicts (analyzeConflicts codeUnitCompare lowerASCII
      (stateWith [plainEntry [str ''a''] None (Some (str ''x'')),
                  plainEntry [str ''a''] None (Some (str ''y''))])
      [plainEntry [str ''a''] None (Some (str ''x'')),
       plainEntry [str ''a''] None (Some (str ''y''))])) = 2 \<and>
   mergeSummary (analyzeConflicts codeUnitCompare lowerASCII
      (stateWith [plainEntry [str ''a''] None (Some (str ''x'')),
                  plainEntry [str ''a''] None (Some (str ''y''))])
      [plainEntry [str ''a''] None (Some (str ''x'')),
       plainEntry [str ''a''] None (Some (str ''y''))]) = None"
  by (simp add: merge_eval)

lemma areIdentical_refl: "areIdentical lc m m"
  by (simp add: areIdentical_def)

lemma shares_own_graphemes:
  "graphemes m \<noteq> [] \<Longrightarrow> sharesGrapheme lc (map lc (graphemes m)) m"
  by (cases "graphemes m") (auto simp: sharesGrapheme_def)

lemma enumerate_snd_mem: "p \<in> set (enumerate n xs) \<Longrightarrow> snd p \<in> set xs"
  by (cases p) (auto simp: enumerate_eq_zip dest: set_zip_rightD)

lemma conflictsOfEntry_empty:
  assumes "\<forall>m \<in> set ms. sharesGrapheme lc (map lc (graphemes e)) m \<longrightarrow> areIdentical lc m e"
  shows "conflictsOfEntry lc ms (k, e) = []"
proof -
  have "conflictsOfMatch lc e k im = []"
    if "im \<in> set (enumerate 0 ms)" "sharesGrapheme lc (map lc (graphemes e)) (snd im)" for im
  proof -
    have "snd im \<in> set ms" using that(1) by (rule enumerate_snd_mem)
    then have "areIdentical lc (snd im) e" using assms that(2) by blast
    then show ?thesis by (simp add: conflictsOfMatch_def Let_def)
  qed
  then show ?thesis by (auto simp: conflictsOfEntry_def Let_def)
qed

lemma findConflicts_empty:
  assumes "\<forall>e \<in> set es. \<forall>m \<in> set ms.
             sharesGrapheme lc (map lc (graphemes e)) m \<longrightarrow> areIdentical lc m e"
  shows "findConflicts lc ms es = []"
proof -
  have "conflictsOfEntry lc ms ke = []" if "ke \<in> set (enumerate 0 es)" for ke
  proof -
    have "snd ke \<in> set es" using that by (rule enumerate_snd_mem)
    then show ?thesis using conflictsOfEntry_empty[of ms lc "snd ke" "fst ke"] assms by simp
  qed
  then show ?thesis by (simp add: findConflicts_def)
qed

lemma find_Some_sat: "find P xs = Some x \<Longrightarrow> x \<in> set xs \<and> P x"
  by (induction xs) (auto split: if_splits)

lemma performMergeStep_identical:
  assumes ne: "graphemes e \<noteq> []" and mem: "e \<in> set ms"
    and idt: "\<forall>m \<in> set ms. sharesGrapheme lc (map lc (graphemes e)) m \<longrightarrow> areIdentical lc m e"
  shows "performMergeStep lc (ms, n, k) e = (ms, n, Suc k)"
proof -
  let ?G = "map lc (graphemes e)"
  have ex: "\<exists>m \<in> set ms. sharesGrapheme lc ?G m"
    using shares_own_graphemes[OF ne] mem by blast
  then obtain x where x: "find (sharesGrapheme lc ?G) ms = Some x"
    by (cases "find (sharesGrapheme lc ?G) ms") (auto simp: find_None_iff)
  have "areIdentical lc x e" using find_Some_sat[OF x] idt by blast
  then show ?thesis using ex x by (simp add: performMergeStep_def Let_def)
qed

lemma performMerge_fold_identical:
  assumes "\<forall>e \<in> set es. graphemes e \<noteq> [] \<and> e \<in> set ms \<and>
             (\<forall>m \<in> set ms. sharesGrapheme lc (map lc (graphemes e)) m \<longrightarrow> areIdentical lc m e)"
  shows "foldl (performMergeStep lc) (ms, n, k) es = (ms, n, k + length es)"
  using assms
proof (induction es arbitrary: k)
  case Nil
  then show ?case by simp
next
  case (Cons e es)
  have "performMergeStep lc (ms, n, k) e = (ms, n, Suc k)"
    using Cons.prems by (intro performMergeStep_identical) auto
  then show ?case using Cons.IH[of "Suc k"] Cons.prems by simp
qed

text \<open>
  C3 (amended).  Merge idempotence holds for every master list whose entries each have a
  grapheme and in which any two entries that share a grapheme (case-insensitively) are
  identical as \<open>areIdentical\<close> tests it: their sorted lists of lowercased graphemes are
  equal (the same lowercased graphemes, each the same number of times), their lowercased
  aliases are equal or both absent, and their phonemes are equal.  Merging such a list into
  itself gives no conflict record, no new entry, and \<open>identicalSkipped\<close> equal to the length
  of the list.
\<close>

theorem merge_idempotence:
  "(\<forall>m \<in> set (entries s). graphemes m \<noteq> []) \<and>
   (\<forall>e \<in> set (entries s). \<forall>m \<in> set (entries s).
       sharesGrapheme lc (map lc (graphemes e)) m \<longrightarrow> areIdentical lc m e) \<longrightarrow>
   mergeConflicts (analyzeConflicts cmp lc s (entries s)) = [] \<and>
   findConflicts lc (entries s) (entries s) = [] \<and>
   mergeSummary (analyzeConflicts cmp lc s (entries s)) =
     Some \<lparr>newEntries = 0, conflictsResolved = 0,
           identicalSkipped = int (length (entries s)),
           totalProcessed = length (entries s), errorsFound = mergeDetailedErrors s\<rparr> \<and>
   entries (analyzeConflicts cmp lc s (entries s)) = sortAlphabetically cmp lc (entries s)"
proof (intro impI, elim conjE)
  assume ne: "\<forall>m \<in> set (entries s). graphemes m \<noteq> []"
    and idt: "\<forall>e \<in> set (entries s). \<forall>m \<in> set (entries s).
       sharesGrapheme lc (map lc (graphemes e)) m \<longrightarrow> areIdentical lc m e"
  have fc: "findConflicts lc (entries s) (entries s) = []"
    using idt by (rule findConflicts_empty)
  have fold: "foldl (performMergeStep lc) (entries s, 0, 0) (entries s) =
                (entries s, 0, 0 + length (entries s))"
    using ne idt by (intro performMerge_fold_identical) blast
  show "mergeConflicts (analyzeConflicts cmp lc s (entries s)) = [] \<and>
    findConflicts lc (entries s) (entries s) = [] \<and>
    mergeSummary (analyzeConflicts cmp lc s (entries s)) =
     Some \<lparr>newEntries = 0, conflictsResolved = 0,
           identicalSkipped = int (length (entries s)),
           totalProcessed = length (entries s), errorsFound = mergeDetailedErrors s\<rparr> \<and>
    entries (analyzeConflicts cmp lc s (entries s)) = sortAlphabetically cmp lc (entries s)"
    using fc fold by (simp add: analyzeConflicts_def performMerge_def Let_def)
qed

theorem merge_idempotence_witness:
  "graphemes (plainEntry [str ''apple''] None (Some (str ''x''))) \<noteq> [] \<and>
   graphemes (plainEntry [str ''Cat'', str ''cat''] (Some []) (Some kaet)) \<noteq> [] \<and>
   mergeSummary (analyzeConflicts codeUnitCompare lowerASCII
      (stateWith [plainEntry [str ''apple''] None (Some (str ''x'')),
                  plainEntry [str ''Cat'', str ''cat''] (Some []) (Some kaet)])
      [plainEntry [str ''apple''] None (Some (str ''x'')),
       plainEntry [str ''Cat'', str ''cat''] (Some []) (Some kaet)]) =
     Some \<lparr>newEntries = 0, conflictsResolved = 0, identicalSkipped = 2,
           totalProcessed = 2, errorsFound = 0\<rparr>"
proof -
  let ?s = "stateWith [plainEntry [str ''apple''] None (Some (str ''x'')),
                  plainEntry [str ''Cat'', str ''cat''] (Some []) (Some kaet)]"
  have h1: "\<forall>m \<in> set (entries ?s). graphemes m \<noteq> []"
    by (simp add: stateWith_def plainEntry_def)
  have h2: "\<forall>e \<in> set (entries ?s). \<forall>m \<in> set (entries ?s).
       sharesGrapheme lowerASCII (map lowerASCII (graphemes e)) m \<longrightarrow> areIdentical lowerASCII m e"
    by (simp add: stateWith_def plainEntry_def sharesGrapheme_def areIdentical_def
        lowerASCII_def str_def)
  have e: "entries ?s = [plainEntry [str ''apple''] None (Some (str ''x'')),
                  plainEntry [str ''Cat'', str ''cat''] (Some []) (Some kaet)]"
    "mergeDetailedErrors ?s = 0"
    by (simp_all add: stateWith_def)
  show ?thesis
    using h1 h2 merge_idempotence [of ?s lowerASCII codeUnitCompare]
    unfolding e by (simp add: plainEntry_def)
qed

lemma arrayStore_in_range: "i < length xs \<Longrightarrow> arrayStore i v xs = Some (xs[i := v])"
  by (simp add: arrayStore_def)

text \<open>
  C4.  Resolution \<open>both\<close>: for a conflict resolved with \<open>both\<close>, the entry at the conflict's
  master index is replaced by an entry whose graphemes are the master's graphemes followed by
  the incoming graphemes that are not among them case-insensitively, and whose alias and
  phoneme are the incoming entry's when non-empty, else the master's.  In Scenario C (master
  \<open>cat\<close> with \<open>kaet\<close>, incoming \<open>cat\<close> with \<open>kat\<close>) the one conflict has type \<open>conflict\<close>, and
  resolving it with \<open>both\<close> and completing the merge leaves the single entry \<open>cat\<close> with the
  phoneme \<open>kat\<close>.
\<close>

theorem resolution_both:
  "(resolution c = Some Both \<and> masterIndex c < length resolved \<longrightarrow>
      (\<exists>E. applyResolution lc (resolved, n) c = Some (resolved[masterIndex c := E], Suc n) \<and>
           graphemes E =
             graphemes (masterEntry c) @
             filter (\<lambda>g. lc g \<notin> set (map lc (graphemes (masterEntry c)))) (graphemes (mergeEntry c)) \<and>
           alias' E = (if alias' (mergeEntry c) \<noteq> None \<and> alias' (mergeEntry c) \<noteq> Some []
                       then alias' (mergeEntry c) else alias' (masterEntry c)) \<and>
           phoneme E = (if phoneme (mergeEntry c) \<noteq> None \<and> phoneme (mergeEntry c) \<noteq> Some []
                        then phoneme (mergeEntry c) else phoneme (masterEntry c)))) \<and>
   map conflictType (findConflicts lowerASCII [plainEntry [str ''cat''] None (Some kaet)]
                        [plainEntry [str ''cat''] None (Some (str ''kat''))]) = [Conflict] \<and>
   map_option entries
     (finalizeMerge cmp lowerASCII
        (resolveAllConflicts Both
           (analyzeConflicts cmp lowerASCII
              ((stateWith [plainEntry [str ''cat''] None (Some kaet)])
                 \<lparr>mergeFileContent := [plainEntry [str ''cat''] None (Some (str ''kat''))]\<rparr>)
              [plainEntry [str ''cat''] None (Some (str ''kat''))]))) =
     Some [\<lparr>graphemes = [str ''cat''], alias' = None, aliasSayAsType = None,
            phoneme = Some (str ''kat''), phonemeSayAsType = None, isNew = Some True\<rparr>]"
proof (intro conjI impI)
  assume h: "resolution c = Some Both \<and> masterIndex c < length resolved"
  let ?E = "combineBoth lc c"
  have "applyResolution lc (resolved, n) c = Some (resolved[masterIndex c := ?E], Suc n)"
    using h by (simp add: applyResolution_def arrayStore_in_range Let_def)
  moreover have "graphemes ?E =
             graphemes (masterEntry c) @
             filter (\<lambda>g. lc g \<notin> set (map lc (graphemes (masterEntry c)))) (graphemes (mergeEntry c))"
    by (simp add: combineBoth_def Let_def)
  moreover have "alias' ?E = (if alias' (mergeEntry c) \<noteq> None \<and> alias' (mergeEntry c) \<noteq> Some []
                       then alias' (mergeEntry c) else alias' (masterEntry c))"
    by (cases "alias' (mergeEntry c)") (simp_all add: combineBoth_def Let_def orElse_def truthy_def)
  moreover have "phoneme ?E = (if phoneme (mergeEntry c) \<noteq> None \<and> phoneme (mergeEntry c) \<noteq> Some []
                        then phoneme (mergeEntry c) else phoneme (masterEntry c))"
    by (cases "phoneme (mergeEntry c)") (simp_all add: combineBoth_def Let_def orElse_def truthy_def)
  ultimately show "\<exists>E. applyResolution lc (resolved, n) c = Some (resolved[masterIndex c := E], Suc n) \<and>
           graphemes E =
             graphemes (masterEntry c) @
             filter (\<lambda>g. lc g \<notin> set (map lc (graphemes (masterEntry c)))) (graphemes (mergeEntry c)) \<and>
           alias' E = (if alias' (mergeEntry c) \<noteq> None \<and> alias' (mergeEntry c) \<noteq> Some []
                       then alias' (mergeEntry c) else alias' (masterEntry c)) \<and>
           phoneme E = (if phoneme (mergeEntry c) \<noteq> None \<and> phoneme (mergeEntry c) \<noteq> Some []
                        then phoneme (mergeEntry c) else phoneme (masterEntry c))"
    by blast
next
  show "map conflictType (findConflicts lowerASCII [plainEntry [str ''cat''] None (Some kaet)]
                        [plainEntry [str ''cat''] None (Some (str ''kat''))]) = [Conflict]"
    by (simp add: merge_eval)
next
  show "map_option entries
     (finalizeMerge cmp lowerASCII
        (resolveAllConflicts Both
           (analyzeConflicts cmp lowerASCII
              ((stateWith [plainEntry [str ''cat''] None (Some kaet)])
                 \<lparr>mergeFileContent := [plainEntry [str ''cat''] None (Some (str ''kat''))]\<rparr>)
              [plainEntry [str ''cat''] None (Some (str ''kat''))]))) =
     Some [\<lparr>graphemes = [str ''cat''], alias' = None, aliasSayAsType = None,
            phoneme = Some (str ''kat''), phonemeSayAsType = None, isNew = Some True\<rparr>]"
    by (simp add: merge_eval finalizeMerge_def resolveAllConflicts_def applyResolution_def
        arrayStore_def combineBoth_def addNewEntry_def orElse_def truthy_def)
qed

theorem resolution_both_witness:
  "resolution \<lparr>conflictType = Conflict,
       masterEntry = plainEntry [str ''cat''] None (Some kaet),
       mergeEntry = plainEntry [str ''Cat'', str ''kitty''] (Some []) (Some (str ''kat'')),
       masterIndex = 0, mergeIndex = 0, commonGraphemes = [str ''cat''],
       resolution = Some Both\<rparr> = Some Both \<and>
   applyResolution lowerASCII ([plainEntry [str ''cat''] None (Some kaet)], 0)
     \<lparr>conflictType = Conflict,
       masterEntry = plainEntry [str ''cat''] None (Some kaet),
       mergeEntry = plainEntry [str ''Cat'', str ''kitty''] (Some []) (Some (str ''kat'')),
       masterIndex = 0, mergeIndex = 0, commonGraphemes = [str ''cat''],
       resolution = Some Both\<rparr> =
   Some ([\<lparr>graphemes = [str ''cat'', str ''kitty''], alias' = None, aliasSayAsType = None,
           phoneme = Some (str ''kat''), phonemeSayAsType = None, isNew = Some True\<rparr>], 1)"
  using resolution_both [of
     "\<lparr>conflictType = Conflict,
       masterEntry = plainEntry [str ''cat''] None (Some kaet),
       mergeEntry = plainEntry [str ''Cat'', str ''kitty''] (Some []) (Some (str ''kat'')),
       masterIndex = 0, mergeIndex = 0, commonGraphemes = [str ''cat''],
       resolution = Some Both\<rparr>" "[plainEntry [str ''cat''] None (Some kaet)]" lowerASCII 0 codeUnitCompare]
  by (simp add: applyResolution_def arrayStore_def combineBoth_def plainEntry_def orElse_def
      truthy_def lowerASCII_def str_def)

lemma conflictsOfMatch_fields:
  "c \<in> set (conflictsOfMatch lc e k im) \<Longrightarrow>
     mergeEntry c = e \<and> masterIndex c = fst im \<and> masterEntry c = snd im \<and> mergeIndex c = k \<and>
     resolution c = None"
  by (auto simp: conflictsOfMatch_def Let_def split: if_splits)

lemma findConflicts_fields:
  assumes "c \<in> set (findConflicts lc ms es)"
  shows "mergeEntry c \<in> set es \<and> masterIndex c < length ms \<and>
         masterEntry c = ms ! masterIndex c \<and> resolution c = None"
proof -
  from assms obtain ke where ke: "ke \<in> set (enumerate 0 es)"
    and c1: "c \<in> set (conflictsOfEntry lc ms ke)"
    by (auto simp: findConflicts_def)
  from c1 obtain im where im: "im \<in> set (enumerate 0 ms)"
    and c2: "c \<in> set (conflictsOfMatch lc (snd ke) (fst ke) im)"
    by (auto simp: conflictsOfEntry_def Let_def)
  have f: "mergeEntry c = snd ke" "masterIndex c = fst im" "masterEntry c = snd im"
    "resolution c = None"
    using conflictsOfMatch_fields[OF c2] by simp_all
  have "snd ke \<in> set es" using ke by (rule enumerate_snd_mem)
  moreover have "fst im < length ms \<and> ms ! fst im = snd im"
    using im in_set_enumerate_eq[of im 0 ms] by simp
  ultimately show ?thesis using f by simp
qed

lemma parseMergeEntry_fields:
  "parseMergeEntry lx = Inr e \<Longrightarrow>
     aliasSayAsType e = None \<and> phonemeSayAsType e = None \<and> isNew e = None"
  unfolding parseMergeEntry_def
  by (auto split: sum.splits if_splits)

lemma parsedMergeEntries_fields:
  "e \<in> set (parsedMergeEntries raws) \<Longrightarrow>
     aliasSayAsType e = None \<and> phonemeSayAsType e = None \<and> isNew e = None"
  unfolding parsedMergeEntries_def
  by (auto split: sum.splits dest: parseMergeEntry_fields[OF sym])

text \<open>
  C9.  An entry parsed from a merge file carries graphemes, alias and phoneme only, never a
  say-as type; and for every conflict of such a file resolved with \<open>merge\<close> or \<open>both\<close>, the
  entry written at the conflict's master index has neither \<open>aliasSayAsType\<close> nor
  \<open>phonemeSayAsType\<close>, whatever the master entry had.
\<close>

theorem merge_drops_say_as:
  "(parseMergeEntry lx = Inr e \<longrightarrow>
      aliasSayAsType e = None \<and> phonemeSayAsType e = None \<and> isNew e = None) \<and>
   (\<forall>x \<in> set (parsedMergeEntries raws).
      aliasSayAsType x = None \<and> phonemeSayAsType x = None \<and> isNew x = None) \<and>
   (c \<in> set (findConflicts lc ms (parsedMergeEntries raws)) \<and> (r = Merge \<or> r = Both) \<and>
    length resolved = length ms \<longrightarrow>
      (\<exists>E. applyResolution lc (resolved, n) (c\<lparr>resolution := Some r\<rparr>) =
              Some (resolved[masterIndex c := E], Suc n) \<and>
           masterIndex c < length resolved \<and>
           aliasSayAsType E = None \<and> phonemeSayAsType E = None))"
proof -
  have p1: "parseMergeEntry lx = Inr e \<longrightarrow>
      aliasSayAsType e = None \<and> phonemeSayAsType e = None \<and> isNew e = None"
    using parseMergeEntry_fields by blast
  have p2: "\<forall>x \<in> set (parsedMergeEntries raws).
      aliasSayAsType x = None \<and> phonemeSayAsType x = None \<and> isNew x = None"
    using parsedMergeEntries_fields by blast
  have p3: "\<exists>E. applyResolution lc (resolved, n) (c\<lparr>resolution := Some r\<rparr>) =
              Some (resolved[masterIndex c := E], Suc n) \<and>
           masterIndex c < length resolved \<and>
           aliasSayAsType E = None \<and> phonemeSayAsType E = None"
    if h: "c \<in> set (findConflicts lc ms (parsedMergeEntries raws)) \<and> (r = Merge \<or> r = Both) \<and>
           length resolved = length ms"
  proof -
    from h have c: "c \<in> set (findConflicts lc ms (parsedMergeEntries raws))" by simp
    have idx: "masterIndex c < length resolved"
      using findConflicts_fields[OF c] h by simp
    have me: "aliasSayAsType (mergeEntry c) = None \<and> phonemeSayAsType (mergeEntry c) = None"
      using findConflicts_fields[OF c] parsedMergeEntries_fields by blast
    from h have "r = Merge \<or> r = Both" by simp
    then show ?thesis
    proof
      assume "r = Merge"
      then have "applyResolution lc (resolved, n) (c\<lparr>resolution := Some r\<rparr>) =
              Some (resolved[masterIndex c := markNew (mergeEntry c)], Suc n)"
        using idx by (simp add: applyResolution_def arrayStore_in_range Let_def)
      moreover have "aliasSayAsType (markNew (mergeEntry c)) = None \<and>
                     phonemeSayAsType (markNew (mergeEntry c)) = None"
        using me by (simp add: markNew_def)
      ultimately show ?thesis using idx by blast
    next
      assume "r = Both"
      then have "applyResolution lc (resolved, n) (c\<lparr>resolution := Some r\<rparr>) =
              Some (resolved[masterIndex c := combineBoth lc (c\<lparr>resolution := Some r\<rparr>)], Suc n)"
        using idx by (simp add: applyResolution_def arrayStore_in_range Let_def)
      moreover have "aliasSayAsType (combineBoth lc (c\<lparr>resolution := Some r\<rparr>)) = None \<and>
                     phonemeSayAsType (combineBoth lc (c\<lparr>resolution := Some r\<rparr>)) = None"
        by (simp add: combineBoth_def Let_def)
      ultimately show ?thesis using idx by blast
    qed
  qed
  show ?thesis using p1 p2 p3 by blast
qed

theorem merge_drops_say_as_witness:
  "parseMergeEntry \<lparr>graphemeField = GSingle (Prim (PString (str ''cat''))), aliasField = None,
                     phonemeField = Some (Obj (Some (PString (str ''kat''))))\<rparr> =
     Inr (plainEntry [str ''cat''] (Some []) (Some (str ''kat''))) \<and>
   \<lparr>conflictType = Conflict,
     masterEntry = \<lparr>graphemes = [str ''cat''], alias' = Some [],
                     aliasSayAsType = Some (str ''characters''), phoneme = Some kaet,
                     phonemeSayAsType = Some (str ''name''), isNew = None\<rparr>,
     mergeEntry = plainEntry [str ''cat''] (Some []) (Some (str ''kat'')),
     masterIndex = 0, mergeIndex = 0, commonGraphemes = [str ''cat''], resolution = None\<rparr>
   \<in> set (findConflicts lowerASCII
        [\<lparr>graphemes = [str ''cat''], alias' = Some [],
          aliasSayAsType = Some (str ''characters''), phoneme = Some kaet,
          phonemeSayAsType = Some (str ''name''), isNew = None\<rparr>]
        (parsedMergeEntries
           [\<lparr>graphemeField = GSingle (Prim (PString (str ''cat''))), aliasField = None,
             phonemeField = Some (Obj (Some (PString (str ''kat''))))\<rparr>])) \<and>
   applyResolution lowerASCII
     ([\<lparr>graphemes = [str ''cat''], alias' = Some [],
        aliasSayAsType = Some (str ''characters''), phoneme = Some kaet,
        phonemeSayAsType = Some (str ''name''), isNew = None\<rparr>], 0)
     \<lparr>conflictType = Conflict,
       masterEntry = \<lparr>graphemes = [str ''cat''], alias' = Some [],
                       aliasSayAsType = Some (str ''characters''), phoneme = Some kaet,
                       phonemeSayAsType = Some (str ''name''), isNew = None\<rparr>,
       mergeEntry = plainEntry [str ''cat''] (Some []) (Some (str ''kat'')),
       masterIndex = 0, mergeIndex = 0, commonGraphemes = [str ''cat''],
       resolution = Some Both\<rparr> =
   Some ([\<lparr>graphemes = [str ''cat''], alias' = Some [], aliasSayAsType = None,
           phoneme = Some (str ''kat''), phonemeSayAsType = None, isNew = Some True\<rparr>], 1)"
  using merge_drops_say_as [where
      lx = "\<lparr>graphemeField = GSingle (Prim (PString (str ''cat''))), aliasField = None,
             phonemeField = Some (Obj (Some (PString (str ''kat''))))\<rparr>"
      and e = "plainEntry [str ''cat''] (Some []) (Some (str ''kat''))"
      and raws = "[\<lparr>graphemeField = GSingle (Prim (PString (str ''cat''))), aliasField = None,
             phonemeField = Some (Obj (Some (PString (str ''kat''))))\<rparr>]"
      and c = "\<lparr>conflictType = Conflict,
         masterEntry = \<lparr>graphemes = [str ''cat''], alias' = Some [],
                     aliasSayAsType = Some (str ''characters''), phoneme = Some kaet,
                     phonemeSayAsType = Some (str ''name''), isNew = None\<rparr>,
         mergeEntry = plainEntry [str ''cat''] (Some []) (Some (str ''kat'')),
         masterIndex = 0, mergeIndex = 0, commonGraphemes = [str ''cat''], resolution = None\<rparr>"
      and lc = lowerASCII
      and ms = "[\<lparr>graphemes = [str ''cat''], alias' = Some [],
          aliasSayAsType = Some (str ''characters''), phoneme = Some kaet,
          phonemeSayAsType = Some (str ''name''), isNew = None\<rparr>]"
      and r = Both
      and resolved = "[\<lparr>graphemes = [str ''cat''], alias' = Some [],
          aliasSayAsType = Some (str ''characters''), phoneme = Some kaet,
          phonemeSayAsType = Some (str ''name''), isNew = None\<rparr>]"
      and n = 0]
  by (simp add: parseMergeEntry_def extractGraphemes_def extractText_def valueTruthy_def
      primTruthy_def textOrSelf_def asString_def parsedMergeEntries_def trim_def isWhiteSpace_def
      findConflicts_def conflictsOfEntry_def conflictsOfMatch_def areIdentical_def
      arePhoneticallyIdentical_def sharesGrapheme_def plainEntry_def lowerASCII_def str_def
      kaet_def applyResolution_def arrayStore_def combineBoth_def orElse_def truthy_def Let_def)

section \<open>Properties of validation\<close>

lemma trim_Nil: "trim [] = []"
  by (simp add: trim_def)

text \<open>
  C7 (as the specification states it, refuted).  An entry with the grapheme \<open>a\<close>, the alias
  \<open>x\<close> and a phoneme that is a single tab passes validation, although its phoneme is
  non-empty and the tab is not in the class: the third rule runs only when the phoneme is
  non-empty after trimming.
\<close>

theorem validation_totality_counterexample:
  "validateEntry (plainEntry [str ''a''] (Some (str ''x'')) (Some [9])) = [] \<and>
   \<not> specValid (plainEntry [str ''a''] (Some (str ''x'')) (Some [9]))"
  by (simp add: validateEntry_def specValid_def plainEntry_def trim_def isWhiteSpace_def
      orEmpty_def truthy_def str_def NEW_ENTRY_def isValidIPAChar_def VALID_IPA_LITERALS_def)

text \<open>
  C7 (amended).  Validation totality: \<open>validateEntry\<close> returns the empty list if and only if
  the entry has a grapheme that is non-empty after trimming and not the placeholder, has a
  non-empty (after trim) alias or phoneme, and, if the phoneme is non-empty after trimming,
  every character of the phoneme is in the class.
\<close>

theorem validation_totality:
  "validateEntry entry = [] \<longleftrightarrow>
     (\<exists>g \<in> set (graphemes entry). trim g \<noteq> [] \<and> g \<noteq> NEW_ENTRY) \<and>
     (trim (orEmpty (alias' entry)) \<noteq> [] \<or> trim (orEmpty (phoneme entry)) \<noteq> []) \<and>
     (trim (orEmpty (phoneme entry)) \<noteq> [] \<longrightarrow>
        list_all isValidIPAChar (orEmpty (phoneme entry)))"
proof -
  have t: "truthy (phoneme entry)" "orEmpty (phoneme entry) \<noteq> []"
    if "trim (orEmpty (phoneme entry)) \<noteq> []"
    using that by (cases "phoneme entry"; auto simp: truthy_def orEmpty_def trim_Nil)+
  show ?thesis
    unfolding validateEntry_def Let_def
    using t by (auto split: if_splits)
qed

theorem validation_totality_witness:
  "validateEntry (plainEntry [str ''cat''] None (Some kaet)) = [] \<and>
   trim (orEmpty (phoneme (plainEntry [str ''cat''] None (Some kaet)))) \<noteq> [] \<and>
   list_all isValidIPAChar (orEmpty (phoneme (plainEntry [str ''cat''] None (Some kaet))))"
  using validation_totality [of "plainEntry [str ''cat''] None (Some kaet)"]
  by (simp add: plainEntry_def trim_def isWhiteSpace_def orEmpty_def str_def NEW_ENTRY_def
      kaet_def isValidIPAChar_def VALID_IPA_LITERALS_def)

section \<open>Properties of the CSV and TSV codecs\<close>

lemma last_dropWhile_nonempty: "dropWhile P ys \<noteq> [] \<Longrightarrow> last (dropWhile P ys) = last ys"
  by (induction ys) (auto split: if_splits)

lemma trim_ends:
  assumes "trim s \<noteq> []"
  shows "\<not> isWhiteSpace (hd (trim s)) \<and> \<not> isWhiteSpace (last (trim s))"
proof -
  let ?t = "dropWhile isWhiteSpace s"
  let ?x = "dropWhile isWhiteSpace (rev ?t)"
  have x: "?x \<noteq> []" using assms by (simp add: trim_def)
  have t: "?t \<noteq> []"
  proof
    assume e: "?t = []"
    have "?x = []" unfolding e by simp
    with x show False by contradiction
  qed
  have "\<not> isWhiteSpace (hd ?x)" using x by (rule hd_dropWhile)
  then have l: "\<not> isWhiteSpace (last (trim s))" using x by (simp add: trim_def last_rev)
  have "last ?x = last (rev ?t)" using x by (rule last_dropWhile_nonempty)
  also have "\<dots> = hd ?t" using t by (simp add: last_rev)
  finally have "hd (trim s) = hd ?t" using x by (simp add: trim_def hd_rev)
  moreover have "\<not> isWhiteSpace (hd ?t)" using t by (rule hd_dropWhile)
  ultimately show ?thesis using l by simp
qed

lemma trim_fixed:
  assumes "s = [] \<or> (\<not> isWhiteSpace (hd s) \<and> \<not> isWhiteSpace (last s))"
  shows "trim s = s"
proof (cases s)
  case Nil
  then show ?thesis by (simp add: trim_def)
next
  case (Cons a as)
  then have h: "\<not> isWhiteSpace (hd s)" "\<not> isWhiteSpace (last s)" using assms by auto
  have d1: "dropWhile isWhiteSpace s = s" using Cons h(1) by simp
  have rs: "rev s \<noteq> []" "hd (rev s) = last s" using Cons by (simp_all add: hd_rev)
  then obtain y ys where r: "rev s = y # ys" by (cases "rev s") auto
  have "y = last s" using r rs(2) by simp
  then have d2: "dropWhile isWhiteSpace (rev s) = rev s"
    unfolding r using h(2) by simp
  show ?thesis by (simp add: trim_def d1 d2)
qed

lemma trim_idem: "trim (trim s) = trim s"
  using trim_ends[of s] by (intro trim_fixed) blast

lemma column_trimmed: "column cols i = [] \<or> trimmedNonEmpty (column cols i)"
  by (auto simp: column_def trimmedNonEmpty_def trim_idem split: option.splits)

lemma orUndefined_decoded: "v = [] \<or> trimmedNonEmpty v \<Longrightarrow> decodedField (orUndefined v)"
  by (auto simp: decodedField_def orUndefined_def)

lemma column_map_trim:
  assumes "map trim cols = map trim cols'"
  shows "column cols i = column cols' i"
proof (cases i)
  case None
  then show ?thesis by (simp add: column_def)
next
  case (Some n)
  have len: "length cols = length cols'" using assms by (metis length_map)
  have "trim (cols ! n) = trim (cols' ! n)" if "n < length cols"
    using that assms len by (metis nth_map)
  then show ?thesis using Some len by (simp add: column_def)
qed

lemma addRow_map_trim:
  "map trim cols = map trim cols' \<Longrightarrow> addRow headers m cols = addRow headers m cols'"
  by (simp add: addRow_def column_map_trim[of cols cols'])

lemma addRow_skip:
  "column cols (indexOf (str ''grapheme'') headers) = [] \<Longrightarrow> addRow headers m cols = m"
  by (simp add: addRow_def Let_def)

lemma addRow_decoded:
  assumes "\<forall>ke \<in> set m. decodedEntry (snd ke)"
  shows "\<forall>ke \<in> set (addRow headers m cols). decodedEntry (snd ke)"
proof -
  let ?g = "column cols (indexOf (str ''grapheme'') headers)"
  let ?a = "column cols (indexOf (str ''alias'') headers)"
  let ?asa = "column cols (indexOf (str ''alias_say_as'') headers)"
  let ?p = "column cols (indexOf (str ''phoneme'') headers)"
  let ?psa = "column cols (indexOf (str ''phoneme_say_as'') headers)"
  show ?thesis
  proof (cases "?g = []")
    case True
    then show ?thesis using assms by (simp add: addRow_def Let_def)
  next
    case False
    then have g: "trimmedNonEmpty ?g" using column_trimmed[of cols] by blast
    let ?new = "\<lparr>graphemes = [], alias' = orUndefined ?a, aliasSayAsType = orUndefined ?asa,
                  phoneme = orUndefined ?p, phonemeSayAsType = orUndefined ?psa, isNew = None\<rparr>"
    have new: "decodedEntry ?new"
      by (simp add: decodedEntry_def orUndefined_decoded column_trimmed)
    have app: "decodedEntry (e\<lparr>graphemes := graphemes e @ [?g]\<rparr>)" if "decodedEntry e" for e
      using that g by (simp add: decodedEntry_def)
    let ?k = "entryKey ?a ?asa ?p ?psa"
    let ?m1 = "if ?k \<notin> set (map fst m) then m @ [(?k, ?new)] else m"
    have m1: "\<forall>ke \<in> set ?m1. decodedEntry (snd ke)" using assms new by auto
    have eq: "addRow headers m cols =
                map (\<lambda>ke. if fst ke = ?k
                          then (fst ke, (snd ke)\<lparr>graphemes := graphemes (snd ke) @ [?g]\<rparr>)
                          else ke) ?m1"
      using False by (simp add: addRow_def Let_def)
    show ?thesis
      unfolding eq
    proof
      fix ke
      assume "ke \<in> set (map (\<lambda>ke. if fst ke = ?k
                          then (fst ke, (snd ke)\<lparr>graphemes := graphemes (snd ke) @ [?g]\<rparr>)
                          else ke) ?m1)"
      then obtain ke0 where k0: "ke0 \<in> set ?m1"
        and ke: "ke = (if fst ke0 = ?k
                       then (fst ke0, (snd ke0)\<lparr>graphemes := graphemes (snd ke0) @ [?g]\<rparr>)
                       else ke0)"
        unfolding set_map by blast
      have d: "decodedEntry (snd ke0)" using m1 k0 by blast
      show "decodedEntry (snd ke)"
      proof (cases "fst ke0 = ?k")
        case True
        then have "snd ke = (snd ke0)\<lparr>graphemes := graphemes (snd ke0) @ [?g]\<rparr>"
          using ke by simp
        then show ?thesis using app[OF d] by simp
      next
        case False
        then show ?thesis using ke d by simp
      qed
    qed
  qed
qed

lemma foldl_addRow_decoded:
  "\<forall>ke \<in> set m. decodedEntry (snd ke) \<Longrightarrow>
   \<forall>ke \<in> set (foldl (\<lambda>entryMap line. addRow headers entryMap (splitLine line)) m ls).
      decodedEntry (snd ke)"
proof (induction ls arbitrary: m)
  case Nil
  then show ?case by simp
next
  case (Cons l ls)
  have "\<forall>ke \<in> set (addRow headers m (splitLine l)). decodedEntry (snd ke)"
    using Cons.prems by (rule addRow_decoded)
  then show ?case using Cons.IH by simp
qed

lemma parseDelimited_decoded:
  assumes "parseDelimited splitLine content = Inr es"
  shows "\<forall>e \<in> set es. decodedEntry e"
proof -
  obtain headers ls where
    "es = map snd (foldl (\<lambda>entryMap line. addRow headers entryMap (splitLine line)) [] ls)"
    using assms unfolding parseDelimited_def Let_def
    by (auto split: if_splits)
  moreover have "\<forall>ke \<in> set (foldl (\<lambda>entryMap line. addRow headers entryMap (splitLine line)) [] ls).
      decodedEntry (snd ke)"
    by (rule foldl_addRow_decoded) simp
  ultimately show ?thesis by auto
qed

lemma parseDelimited_eval:
  assumes "splitOn 10 (case content of [] \<Rightarrow> [] | c # cs \<Rightarrow> if c = 65279 then cs else content) = ls"
    and "filter isDataLine ls = h # r # rs"
    and "splitLine h = headers"
    and "list_all (\<lambda>x. x \<in> set headers) expectedHeaders"
    and "foldl (\<lambda>entryMap line. addRow headers entryMap (splitLine line)) [] (r # rs) = m"
  shows "parseDelimited splitLine content = Inr (map snd m)"
  using assms(4) unfolding parseDelimited_def Let_def assms(1) assms(2)
  by (simp add: assms(3) assms(5) del: foldl.simps)

lemma addRow_first:
  "column cols (indexOf (str ''grapheme'') headers) \<noteq> [] \<Longrightarrow>
   map snd (addRow headers [] cols) =
     [\<lparr>graphemes = [column cols (indexOf (str ''grapheme'') headers)],
       alias' = orUndefined (column cols (indexOf (str ''alias'') headers)),
       aliasSayAsType = orUndefined (column cols (indexOf (str ''alias_say_as'') headers)),
       phoneme = orUndefined (column cols (indexOf (str ''phoneme'') headers)),
       phonemeSayAsType = orUndefined (column cols (indexOf (str ''phoneme_say_as'') headers)),
       isNew = None\<rparr>]"
  by (simp add: addRow_def Let_def)

lemma column_blank:
  "i = Some n \<Longrightarrow> n < length cols \<Longrightarrow> trim (cols ! n) = [] \<Longrightarrow> orUndefined (column cols i) = None"
  by (simp add: column_def orUndefined_def)

text \<open>
  C10.  For CSV and TSV input that passes the header and row-count checks: a data row is
  used through the trimmed values of its fields only; a row whose grapheme field is empty
  after trimming leaves the entries as they are, without an error; a row with a grapheme
  gives an entry whose alias, phoneme and say-as fields are absent when the field is empty
  after trimming.  So no decoded entry has an empty grapheme (every grapheme is non-empty
  and trimmed), and an alias or phoneme of a decoded entry is absent or a non-empty trimmed
  string.
\<close>

theorem decode_trims_and_skips:
  "(map trim cols = map trim cols' \<longrightarrow> addRow headers m cols = addRow headers m cols') \<and>
   (column cols (indexOf (str ''grapheme'') headers) = [] \<longrightarrow> addRow headers m cols = m) \<and>
   (column cols (indexOf (str ''grapheme'') headers) \<noteq> [] \<longrightarrow>
      map snd (addRow headers [] cols) =
        [\<lparr>graphemes = [column cols (indexOf (str ''grapheme'') headers)],
          alias' = orUndefined (column cols (indexOf (str ''alias'') headers)),
          aliasSayAsType = orUndefined (column cols (indexOf (str ''alias_say_as'') headers)),
          phoneme = orUndefined (column cols (indexOf (str ''phoneme'') headers)),
          phonemeSayAsType = orUndefined (column cols (indexOf (str ''phoneme_say_as'') headers)),
          isNew = None\<rparr>]) \<and>
   (i = Some n \<and> n < length cols \<and> trim (cols ! n) = [] \<longrightarrow> orUndefined (column cols i) = None) \<and>
   (parseTSV content = Inr es \<or> parseCSV content = Inr es \<longrightarrow>
      (\<forall>e \<in> set es.
         (\<forall>g \<in> set (graphemes e). g \<noteq> [] \<and> trim g = g) \<and>
         (alias' e = None \<or> (\<exists>a. alias' e = Some a \<and> a \<noteq> [] \<and> trim a = a)) \<and>
         (phoneme e = None \<or> (\<exists>p. phoneme e = Some p \<and> p \<noteq> [] \<and> trim p = p))))"
proof -
  have p5: "\<forall>e \<in> set es.
         (\<forall>g \<in> set (graphemes e). g \<noteq> [] \<and> trim g = g) \<and>
         (alias' e = None \<or> (\<exists>a. alias' e = Some a \<and> a \<noteq> [] \<and> trim a = a)) \<and>
         (phoneme e = None \<or> (\<exists>p. phoneme e = Some p \<and> p \<noteq> [] \<and> trim p = p))"
    if h: "parseTSV content = Inr es \<or> parseCSV content = Inr es"
  proof
    fix e assume e: "e \<in> set es"
    have "decodedEntry e"
      using h e parseDelimited_decoded unfolding parseTSV_def parseCSV_def by blast
    then show "(\<forall>g \<in> set (graphemes e). g \<noteq> [] \<and> trim g = g) \<and>
         (alias' e = None \<or> (\<exists>a. alias' e = Some a \<and> a \<noteq> [] \<and> trim a = a)) \<and>
         (phoneme e = None \<or> (\<exists>p. phoneme e = Some p \<and> p \<noteq> [] \<and> trim p = p))"
      by (cases "alias' e"; cases "phoneme e")
         (auto simp: decodedEntry_def decodedField_def trimmedNonEmpty_def list_all_iff)
  qed
  show ?thesis
  proof (intro conjI)
    show "map trim cols = map trim cols' \<longrightarrow> addRow headers m cols = addRow headers m cols'"
      using addRow_map_trim by blast
    show "column cols (indexOf (str ''grapheme'') headers) = [] \<longrightarrow> addRow headers m cols = m"
      using addRow_skip by blast
    show "column cols (indexOf (str ''grapheme'') headers) \<noteq> [] \<longrightarrow>
      map snd (addRow headers [] cols) =
        [\<lparr>graphemes = [column cols (indexOf (str ''grapheme'') headers)],
          alias' = orUndefined (column cols (indexOf (str ''alias'') headers)),
          aliasSayAsType = orUndefined (column cols (indexOf (str ''alias_say_as'') headers)),
          phoneme = orUndefined (column cols (indexOf (str ''phoneme'') headers)),
          phonemeSayAsType = orUndefined (column cols (indexOf (str ''phoneme_say_as'') headers)),
          isNew = None\<rparr>]"
      using addRow_first by blast
    show "i = Some n \<and> n < length cols \<and> trim (cols ! n) = [] \<longrightarrow>
            orUndefined (column cols i) = None"
      by (auto intro: column_blank)
    show "parseTSV content = Inr es \<or> parseCSV content = Inr es \<longrightarrow>
      (\<forall>e \<in> set es.
         (\<forall>g \<in> set (graphemes e). g \<noteq> [] \<and> trim g = g) \<and>
         (alias' e = None \<or> (\<exists>a. alias' e = Some a \<and> a \<noteq> [] \<and> trim a = a)) \<and>
         (phoneme e = None \<or> (\<exists>p. phoneme e = Some p \<and> p \<noteq> [] \<and> trim p = p)))"
      by (rule impI) (rule p5)
  qed
qed

theorem decode_trims_and_skips_witness:
  "parseCSV (joinWith [10] [joinWith [44] expectedHeaders, str '' dog ,  ,,d, '', str ''  , x,,y,'']) =
     Inr [\<lparr>graphemes = [str ''dog''], alias' = None, aliasSayAsType = None,
           phoneme = Some (str ''d''), phonemeSayAsType = None, isNew = None\<rparr>] \<and>
   column (parseCSVLine (str ''  , x,,y,'')) (indexOf (str ''grapheme'') expectedHeaders) = [] \<and>
   addRow expectedHeaders [] (parseCSVLine (str ''  , x,,y,'')) = [] \<and>
   trim (str ''dog'') = str ''dog''"
proof -
  let ?l0 = "joinWith [44] expectedHeaders"
  let ?l1 = "str '' dog ,  ,,d, ''"
  let ?l2 = "str ''  , x,,y,''"
  let ?content = "joinWith [10] [?l0, ?l1, ?l2]"
  let ?m = "[(str ''||d|'', \<lparr>graphemes = [str ''dog''], alias' = None, aliasSayAsType = None,
         phoneme = Some (str ''d''), phonemeSayAsType = None, isNew = None\<rparr>)]"
  have h1: "splitOn 10 (case ?content of [] \<Rightarrow> [] | c # cs \<Rightarrow> if c = 65279 then cs else ?content)
             = [?l0, ?l1, ?l2]"
    by (simp add: expectedHeaders_def str_def)
  have h2: "filter isDataLine [?l0, ?l1, ?l2] = [?l0, ?l1, ?l2]"
    by (simp add: expectedHeaders_def str_def isDataLine_def trim_def isWhiteSpace_def)
  have h3: "parseCSVLine ?l0 = expectedHeaders"
    by (simp add: expectedHeaders_def str_def parseCSVLine_def)
  have h4: "list_all (\<lambda>x. x \<in> set expectedHeaders) expectedHeaders"
    by (simp add: list_all_iff)
  have r1: "addRow expectedHeaders [] (parseCSVLine ?l1) = ?m"
    by (simp add: addRow_def column_def entryKey_def orUndefined_def expectedHeaders_def trim_def
        isWhiteSpace_def str_def Let_def parseCSVLine_def)
  have g2: "column (parseCSVLine ?l2) (indexOf (str ''grapheme'') expectedHeaders) = []"
    by (simp add: column_def expectedHeaders_def trim_def isWhiteSpace_def str_def parseCSVLine_def)
  have r2: "addRow expectedHeaders ?m (parseCSVLine ?l2) = ?m"
    using g2 decode_trims_and_skips [of "parseCSVLine ?l2" "parseCSVLine ?l2" expectedHeaders ?m]
    by blast
  have r0: "addRow expectedHeaders [] (parseCSVLine ?l2) = []"
    using g2 by (rule addRow_skip)
  have h5: "foldl (\<lambda>entryMap line. addRow expectedHeaders entryMap (parseCSVLine line)) []
              [?l1, ?l2] = ?m"
    by (simp only: foldl.simps r1 r2)
  have p: "parseCSV ?content = Inr (map snd ?m)"
    unfolding parseCSV_def using h1 h2 h3 h4 h5 by (rule parseDelimited_eval)
  have t: "trim (str ''dog'') = str ''dog''"
    by (simp add: trim_def isWhiteSpace_def str_def)
  have m: "map snd ?m = [\<lparr>graphemes = [str ''dog''], alias' = None, aliasSayAsType = None,
           phoneme = Some (str ''d''), phonemeSayAsType = None, isNew = None\<rparr>]"
    by (simp only: list.map snd_conv)
  show ?thesis using p g2 r0 t unfolding m by (intro conjI)
qed

subsection \<open>The round trip\<close>

subsubsection \<open>split and join\<close>

lemma splitOn_nonempty: "splitOn sep s \<noteq> []"
  by (induction s) (auto split: list.splits)

lemma splitOn_no_sep: "sep \<notin> set x \<Longrightarrow> splitOn sep x = [x]"
  by (induction x) auto

lemma splitOn_append:
  "sep \<notin> set x \<Longrightarrow> splitOn sep (x @ sep # r) = x # splitOn sep r"
  by (induction x) auto

lemma split_join:
  "xs \<noteq> [] \<Longrightarrow> \<forall>x \<in> set xs. sep \<notin> set x \<Longrightarrow> splitOn sep (joinWith [sep] xs) = xs"
proof (induction xs)
  case Nil
  then show ?case by simp
next
  case (Cons x xs)
  show ?case
  proof (cases xs)
    case Nil
    then show ?thesis using Cons.prems by (simp add: splitOn_no_sep)
  next
    case (Cons y ys)
    have "joinWith [sep] (x # xs) = x @ sep # joinWith [sep] xs"
      using Cons by simp
    then show ?thesis
      using Cons.IH Cons.prems Cons by (simp add: splitOn_append)
  qed
qed

subsubsection \<open>The loop of parseCSVLine\<close>

lemma loop_plain:
  "c \<noteq> 34 \<Longrightarrow> \<not> (c = 44 \<and> \<not> q) \<Longrightarrow>
   parseCSVLoop (c # xs) cur q res = parseCSVLoop xs (cur @ [c]) q res"
  by (cases xs) auto

lemma loop_comma:
  "parseCSVLoop (44 # xs) cur False res = parseCSVLoop xs [] False (res @ [cur])"
  by (cases xs) auto

lemma loop_open:
  "parseCSVLoop (34 # xs) cur False res = parseCSVLoop xs cur True res"
  by (cases xs) auto

lemma loop_close:
  "xs = [] \<or> hd xs \<noteq> 34 \<Longrightarrow> parseCSVLoop (34 # xs) cur True res = parseCSVLoop xs cur False res"
  by (cases xs) auto

lemma loop_doubled:
  "parseCSVLoop (34 # 34 # xs) cur True res = parseCSVLoop xs (cur @ [34]) True res"
  by simp

lemma loop_unquoted:
  "34 \<notin> set v \<Longrightarrow> 44 \<notin> set v \<Longrightarrow>
   parseCSVLoop (v @ r) cur False res = parseCSVLoop r (cur @ v) False res"
proof (induction v arbitrary: cur)
  case Nil
  then show ?case by simp
next
  case (Cons c v)
  then have "parseCSVLoop ((c # v) @ r) cur False res = parseCSVLoop (v @ r) (cur @ [c]) False res"
    by (simp add: loop_plain)
  then show ?case using Cons by simp
qed

lemma loop_quoted:
  "r = [] \<or> hd r \<noteq> 34 \<Longrightarrow>
   parseCSVLoop (concat (map (\<lambda>c. if c = 34 then [34, 34] else [c]) v) @ 34 # r) cur True res =
   parseCSVLoop r (cur @ v) False res"
proof (induction v arbitrary: cur)
  case Nil
  then show ?case by (simp add: loop_close)
next
  case (Cons c v)
  show ?case
  proof (cases "c = 34")
    case True
    then show ?thesis using Cons by (simp del: parseCSVLoop.simps add: loop_doubled)
  next
    case False
    then show ?thesis using Cons by (simp del: parseCSVLoop.simps add: loop_plain)
  qed
qed

lemma loop_field:
  assumes "r = [] \<or> hd r = 44"
  shows "parseCSVLoop (escapeCSV v @ r) [] False res = parseCSVLoop r v False res"
proof (cases "v = []")
  case True
  then show ?thesis by (simp add: escapeCSV_def)
next
  case False
  show ?thesis
  proof (cases "44 \<in> set v \<or> 34 \<in> set v \<or> 10 \<in> set v \<or> 13 \<in> set v")
    case True
    have r: "r = [] \<or> hd r \<noteq> 34" using assms by auto
    have "escapeCSV v @ r = 34 # (concat (map (\<lambda>c. if c = 34 then [34, 34] else [c]) v) @ 34 # r)"
      using True False by (simp add: escapeCSV_def)
    then show ?thesis using loop_quoted[OF r, of v "[]" res] by (simp add: loop_open del: parseCSVLoop.simps)
  next
    case nq: False
    then have "escapeCSV v = v" using False by (simp add: escapeCSV_def)
    then show ?thesis using nq loop_unquoted[of v r "[]" res] by simp
  qed
qed

lemma loop_fields:
  "fs \<noteq> [] \<Longrightarrow> parseCSVLoop (joinWith [44] (map escapeCSV fs)) [] False res = res @ fs"
proof (induction fs arbitrary: res)
  case Nil
  then show ?case by simp
next
  case (Cons f fs)
  show ?case
  proof (cases fs)
    case Nil
    then show ?thesis using loop_field[of "[]" f res] by simp
  next
    case (Cons g gs)
    have "joinWith [44] (map escapeCSV (f # fs)) = escapeCSV f @ 44 # joinWith [44] (map escapeCSV fs)"
      using Cons by simp
    then have "parseCSVLoop (joinWith [44] (map escapeCSV (f # fs))) [] False res =
               parseCSVLoop (44 # joinWith [44] (map escapeCSV fs)) f False res"
      using loop_field[of "44 # joinWith [44] (map escapeCSV fs)" f res] by simp
    also have "\<dots> = parseCSVLoop (joinWith [44] (map escapeCSV fs)) [] False (res @ [f])"
      by (rule loop_comma)
    also have "\<dots> = (res @ [f]) @ fs"
      using Cons Cons.IH[of "res @ [f]"] \<open>fs = g # gs\<close> by simp
    finally show ?thesis by simp
  qed
qed

lemma parseCSVLine_join:
  "fs \<noteq> [] \<Longrightarrow> parseCSVLine (joinWith [44] (map escapeCSV fs)) = fs"
  by (simp add: parseCSVLine_def loop_fields)

lemma parseDelimited_rows:
  assumes "splitOn 10 (case content of [] \<Rightarrow> [] | c # cs \<Rightarrow> if c = 65279 then cs else content) = ls"
    and "filter isDataLine ls = h # rows" and "rows \<noteq> []"
    and "splitLine h = headers"
    and "list_all (\<lambda>x. x \<in> set headers) expectedHeaders"
    and "foldl (addRow headers) [] (map splitLine rows) = m"
  shows "parseDelimited splitLine content = Inr (map snd m)"
proof -
  obtain r rs where rows: "rows = r # rs" using assms(3) by (cases rows) auto
  have "foldl (\<lambda>entryMap line. addRow headers entryMap (splitLine line)) [] (r # rs) = m"
    using assms(6) unfolding rows foldl_map .
  then show ?thesis
    using assms(1) assms(2)[unfolded rows] assms(4) assms(5) by (rule parseDelimited_eval[rotated 4])
qed

lemma header_index:
  "indexOf (str ''grapheme'') expectedHeaders = Some 0"
  "indexOf (str ''alias'') expectedHeaders = Some 1"
  "indexOf (str ''alias_say_as'') expectedHeaders = Some 2"
  "indexOf (str ''phoneme'') expectedHeaders = Some 3"
  "indexOf (str ''phoneme_say_as'') expectedHeaders = Some 4"
  by (simp_all add: expectedHeaders_def str_def)

lemma expected_headers_present: "list_all (\<lambda>x. x \<in> set expectedHeaders) expectedHeaders"
  by (simp add: list_all_iff)

lemma map_update_other:
  "\<forall>ke \<in> set m. fst ke \<noteq> k \<Longrightarrow> map (\<lambda>ke. if fst ke = k then h ke else ke) m = m"
  by (induction m) auto

lemma addRow_clean:
  assumes "g \<noteq> []" "trim g = g" "trim a = a" "trim asa = asa" "trim p = p" "trim psa = psa"
  shows "addRow expectedHeaders m [g, a, asa, p, psa] =
           map (\<lambda>ke. if fst ke = entryKey a asa p psa
                     then (fst ke, (snd ke)\<lparr>graphemes := graphemes (snd ke) @ [g]\<rparr>) else ke)
             (if entryKey a asa p psa \<notin> set (map fst m)
              then m @ [(entryKey a asa p psa,
                         \<lparr>graphemes = [], alias' = orUndefined a, aliasSayAsType = orUndefined asa,
                          phoneme = orUndefined p, phonemeSayAsType = orUndefined psa, isNew = None\<rparr>)]
              else m)"
  using assms by (simp add: addRow_def header_index column_def Let_def)

lemma sharedColumns_safe:
  assumes "list_all safe (sharedColumns e)" and "\<And>v. safe v \<Longrightarrow> trim v = v"
  shows "trim (orEmpty (alias' e)) = orEmpty (alias' e)"
    "trim (orEmpty (aliasSayAsType e)) = orEmpty (aliasSayAsType e)"
    "trim (orEmpty (phoneme e)) = orEmpty (phoneme e)"
    "trim (orEmpty (phonemeSayAsType e)) = orEmpty (phonemeSayAsType e)"
  using assms by (simp_all add: sharedColumns_def)

lemma addRow_entry_row:
  assumes g: "g \<noteq> []" "trim g = g"
    and sc: "list_all safe (sharedColumns e)" and safe: "\<And>v. safe v \<Longrightarrow> trim v = v"
  shows "addRow expectedHeaders m (g # sharedColumns e) =
           map (\<lambda>ke. if fst ke = entryKeyOf e
                     then (fst ke, (snd ke)\<lparr>graphemes := graphemes (snd ke) @ [g]\<rparr>) else ke)
             (if entryKeyOf e \<notin> set (map fst m)
              then m @ [(entryKeyOf e, (normalizeEntry e)\<lparr>graphemes := []\<rparr>)]
              else m)"
proof -
  have "g # sharedColumns e =
          [g, orEmpty (alias' e), orEmpty (aliasSayAsType e), orEmpty (phoneme e),
           orEmpty (phonemeSayAsType e)]"
    by (simp add: sharedColumns_def)
  then show ?thesis
    using addRow_clean[OF g sharedColumns_safe[OF sc safe], of m]
    by (simp add: entryKeyOf_def normalizeEntry_def)
qed

lemma fold_entry_rest:
  assumes k: "entryKeyOf e \<notin> set (map fst m)"
    and sc: "list_all safe (sharedColumns e)" and safe: "\<And>v. safe v \<Longrightarrow> trim v = v"
  shows "\<forall>g \<in> set gs. g \<noteq> [] \<and> trim g = g \<Longrightarrow>
         foldl (addRow expectedHeaders) (m @ [(entryKeyOf e, X\<lparr>graphemes := pre\<rparr>)])
               (map (\<lambda>g. g # sharedColumns e) gs) =
         m @ [(entryKeyOf e, X\<lparr>graphemes := pre @ gs\<rparr>)]"
proof (induction gs arbitrary: pre)
  case Nil
  then show ?case by simp
next
  case (Cons g gs)
  have g: "g \<noteq> []" "trim g = g" using Cons.prems by simp_all
  have other: "\<forall>ke \<in> set m. fst ke \<noteq> entryKeyOf e" using k by force
  let ?upd = "\<lambda>ke. if fst ke = entryKeyOf e
                   then (fst ke, (snd ke)\<lparr>graphemes := graphemes (snd ke) @ [g]\<rparr>) else ke"
  have present: "\<not> entryKeyOf e \<notin> set (map fst (m @ [(entryKeyOf e, X\<lparr>graphemes := pre\<rparr>)]))"
    by simp
  have "addRow expectedHeaders (m @ [(entryKeyOf e, X\<lparr>graphemes := pre\<rparr>)]) (g # sharedColumns e) =
          map ?upd (m @ [(entryKeyOf e, X\<lparr>graphemes := pre\<rparr>)])"
    by (simp only: addRow_entry_row[OF g sc safe] present if_False)
  also have "\<dots> = map ?upd m @ [?upd (entryKeyOf e, X\<lparr>graphemes := pre\<rparr>)]"
    by (simp only: map_append list.map)
  also have "map ?upd m = m" using other by (rule map_update_other)
  also have "?upd (entryKeyOf e, X\<lparr>graphemes := pre\<rparr>) =
             (entryKeyOf e, X\<lparr>graphemes := pre @ [g]\<rparr>)"
    by simp
  finally have step: "addRow expectedHeaders (m @ [(entryKeyOf e, X\<lparr>graphemes := pre\<rparr>)]) (g # sharedColumns e) =
              m @ [(entryKeyOf e, X\<lparr>graphemes := pre @ [g]\<rparr>)]" .
  show ?case
    using Cons.IH[of "pre @ [g]"] Cons.prems by (simp add: step)
qed

lemma fold_entry:
  assumes k: "entryKeyOf e \<notin> set (map fst m)"
    and sc: "list_all safe (sharedColumns e)" and safe: "\<And>v. safe v \<Longrightarrow> trim v = v"
    and gs: "graphemes e \<noteq> []" "\<forall>g \<in> set (graphemes e). g \<noteq> [] \<and> trim g = g"
  shows "foldl (addRow expectedHeaders) m (map (\<lambda>g. g # sharedColumns e) (graphemes e)) =
         m @ [(entryKeyOf e, normalizeEntry e)]"
proof -
  obtain g rest where ge: "graphemes e = g # rest" using gs(1) by (cases "graphemes e") auto
  have g: "g \<noteq> []" "trim g = g" and rest: "\<forall>g \<in> set rest. g \<noteq> [] \<and> trim g = g"
    using gs(2) ge by simp_all
  have other: "\<forall>ke \<in> set m. fst ke \<noteq> entryKeyOf e" using k by force
  let ?upd = "\<lambda>ke. if fst ke = entryKeyOf e
                   then (fst ke, (snd ke)\<lparr>graphemes := graphemes (snd ke) @ [g]\<rparr>) else ke"
  have "addRow expectedHeaders m (g # sharedColumns e) =
          map ?upd (m @ [(entryKeyOf e, (normalizeEntry e)\<lparr>graphemes := []\<rparr>)])"
    by (simp only: addRow_entry_row[OF g sc safe] k not_False_eq_True if_True)
  also have "\<dots> = map ?upd m @ [?upd (entryKeyOf e, (normalizeEntry e)\<lparr>graphemes := []\<rparr>)]"
    by (simp only: map_append list.map)
  also have "map ?upd m = m" using other by (rule map_update_other)
  also have "?upd (entryKeyOf e, (normalizeEntry e)\<lparr>graphemes := []\<rparr>) =
             (entryKeyOf e, (normalizeEntry e)\<lparr>graphemes := [g]\<rparr>)"
    by simp
  finally have first: "addRow expectedHeaders m (g # sharedColumns e) =
               m @ [(entryKeyOf e, (normalizeEntry e)\<lparr>graphemes := [g]\<rparr>)]" .
  have "foldl (addRow expectedHeaders) (m @ [(entryKeyOf e, (normalizeEntry e)\<lparr>graphemes := [g]\<rparr>)])
               (map (\<lambda>g. g # sharedColumns e) rest) =
         m @ [(entryKeyOf e, (normalizeEntry e)\<lparr>graphemes := [g] @ rest\<rparr>)]"
    using fold_entry_rest[OF k sc safe, where gs = rest and X = "normalizeEntry e" and pre = "[g]"] rest
    by blast
  moreover have "(normalizeEntry e)\<lparr>graphemes := [g] @ rest\<rparr> = normalizeEntry e"
    using ge by (simp add: normalizeEntry_def)
  ultimately show ?thesis by (simp add: ge first)
qed

lemma fold_entries:
  assumes safe: "\<And>v. safe v \<Longrightarrow> trim v = v"
  shows "distinct (map entryKeyOf es) \<Longrightarrow>
         \<forall>e \<in> set es. entryKeyOf e \<notin> set (map fst m) \<Longrightarrow>
         \<forall>e \<in> set es. roundTrips safe e \<Longrightarrow>
         foldl (addRow expectedHeaders) m
               (concat (map (\<lambda>e. map (\<lambda>g. g # sharedColumns e) (graphemes e)) es)) =
         m @ map (\<lambda>e. (entryKeyOf e, normalizeEntry e)) es"
proof (induction es arbitrary: m)
  case Nil
  then show ?case by simp
next
  case (Cons e es)
  have rt: "roundTrips safe e" using Cons.prems(3) by simp
  have k: "entryKeyOf e \<notin> set (map fst m)" using Cons.prems(2) by simp
  have sc: "list_all safe (sharedColumns e)" using rt by (simp add: roundTrips_def)
  have gs: "graphemes e \<noteq> []" "\<forall>g \<in> set (graphemes e). g \<noteq> [] \<and> trim g = g"
    using rt safe by (auto simp: roundTrips_def list_all_iff)
  have one: "foldl (addRow expectedHeaders) m (map (\<lambda>g. g # sharedColumns e) (graphemes e)) =
             m @ [(entryKeyOf e, normalizeEntry e)]"
    using k sc safe gs by (rule fold_entry)
  have fresh: "\<forall>x \<in> set es. entryKeyOf x \<notin> set (map fst (m @ [(entryKeyOf e, normalizeEntry e)]))"
  proof
    fix x assume x: "x \<in> set es"
    have "entryKeyOf e \<notin> set (map entryKeyOf es)" using Cons.prems(1) by simp
    then have a: "entryKeyOf x \<noteq> entryKeyOf e" using x by (metis image_eqI set_map)
    have b: "entryKeyOf x \<notin> set (map fst m)" using Cons.prems(2) x by simp
    show "entryKeyOf x \<notin> set (map fst (m @ [(entryKeyOf e, normalizeEntry e)]))"
      using a b by simp
  qed
  have "foldl (addRow expectedHeaders) (m @ [(entryKeyOf e, normalizeEntry e)])
               (concat (map (\<lambda>e. map (\<lambda>g. g # sharedColumns e) (graphemes e)) es)) =
        (m @ [(entryKeyOf e, normalizeEntry e)]) @ map (\<lambda>e. (entryKeyOf e, normalizeEntry e)) es"
    using Cons.prems(1) fresh Cons.prems(3) by (intro Cons.IH) simp_all
  then show ?case by (simp add: one)
qed

lemma set_joinWith: "set (joinWith sep xs) \<subseteq> set sep \<union> \<Union> (set ` set xs)"
  by (induction sep xs rule: joinWith.induct) auto

lemma set_escapeCSV: "set (escapeCSV v) \<subseteq> insert 34 (set v)"
  by (auto simp: escapeCSV_def split: if_splits)

lemma hd_joinWith: "x \<noteq> [] \<Longrightarrow> joinWith sep (x # xs) \<noteq> [] \<and> hd (joinWith sep (x # xs)) = hd x"
  by (cases xs) auto

lemma hd_escapeCSV: "v \<noteq> [] \<Longrightarrow> escapeCSV v \<noteq> [] \<and> (hd (escapeCSV v) = hd v \<or> hd (escapeCSV v) = 34)"
  by (auto simp: escapeCSV_def)

lemma isDataLine_start:
  assumes "l \<noteq> []" "\<not> isWhiteSpace (hd l)" "hd l \<noteq> 35"
  shows "isDataLine l"
proof -
  obtain c r where l: "l = c # r" using assms(1) by (cases l) auto
  have c: "\<not> isWhiteSpace c" "c \<noteq> 35" using assms l by simp_all
  have d1: "dropWhile isWhiteSpace l = l" using l c by simp
  let ?x = "dropWhile isWhiteSpace (rev l)"
  have "rev l = rev r @ [c]" using l by simp
  then have "?x = dropWhile isWhiteSpace (rev r) @ [c] \<or> ?x = [c]"
    using c by (simp add: dropWhile_append)
  then have x: "?x \<noteq> [] \<and> last ?x = c"
  proof
    assume a: "?x = dropWhile isWhiteSpace (rev r) @ [c]"
    show ?thesis unfolding a by simp
  next
    assume a: "?x = [c]"
    show ?thesis unfolding a by simp
  qed
  have t: "trim l = rev ?x" by (simp add: trim_def d1)
  have "trim l \<noteq> [] \<and> hd (trim l) = c" using x by (simp add: t hd_rev)
  then show ?thesis using c by (cases "trim l") (auto simp: isDataLine_def)
qed

lemma safe_not_white:
  assumes "trim g = g" "g \<noteq> []"
  shows "\<not> isWhiteSpace (hd g)"
  using trim_ends[of g] assms by simp

lemma not_white_34: "\<not> isWhiteSpace 34"
  by (simp add: isWhiteSpace_def)

lemma concat_map_rows:
  "\<forall>e \<in> set es. \<forall>g \<in> set (G e). f (r e g) = c e g \<Longrightarrow>
   map f (concat (map (\<lambda>e. map (r e) (G e)) es)) = concat (map (\<lambda>e. map (c e) (G e)) es)"
  by (induction es) auto

lemma all_rows:
  "\<forall>e \<in> set es. \<forall>g \<in> set (G e). P (r e g) \<Longrightarrow>
   \<forall>x \<in> set (concat (map (\<lambda>e. map (r e) (G e)) es)). P x"
  by auto

lemma tsv_header:
  "splitOn 9 (joinWith [9] expectedHeaders) = expectedHeaders"
  "isDataLine (joinWith [9] expectedHeaders)"
  "10 \<notin> set (joinWith [9] expectedHeaders)"
  "joinWith [9] expectedHeaders \<noteq> []"
  "hd (joinWith [9] expectedHeaders) \<noteq> 65279"
  by (simp_all add: expectedHeaders_def str_def isDataLine_def trim_def isWhiteSpace_def)

lemma csv_header:
  "parseCSVLine (joinWith [44] expectedHeaders) = expectedHeaders"
  "isDataLine (joinWith [44] expectedHeaders)"
  "10 \<notin> set (joinWith [44] expectedHeaders)"
  "joinWith [44] expectedHeaders \<noteq> []"
  "hd (joinWith [44] expectedHeaders) \<noteq> 65279"
  by (simp_all add: expectedHeaders_def str_def isDataLine_def trim_def isWhiteSpace_def
      parseCSVLine_def)

lemma roundtrip_generic:
  assumes hdr: "splitLine header = expectedHeaders" "isDataLine header" "10 \<notin> set header"
      "header \<noteq> []" "hd header \<noteq> 65279"
    and row: "\<And>e g. roundTrips safe e \<Longrightarrow> g \<in> set (graphemes e) \<Longrightarrow>
                10 \<notin> set (enc (g # sharedColumns e)) \<and> isDataLine (enc (g # sharedColumns e)) \<and>
                splitLine (enc (g # sharedColumns e)) = g # sharedColumns e"
    and safe: "\<And>v. safe v \<Longrightarrow> trim v = v"
    and es: "es \<noteq> []" "distinct (map entryKeyOf es)" "\<forall>e \<in> set es. roundTrips safe e"
  shows "parseDelimited splitLine
           (joinWith [10] (header #
              concat (map (\<lambda>e. map (\<lambda>g. enc (g # sharedColumns e)) (graphemes e)) es))) =
         Inr (map normalizeEntry es)"
proof -
  let ?rows = "concat (map (\<lambda>e. map (\<lambda>g. enc (g # sharedColumns e)) (graphemes e)) es)"
  let ?content = "joinWith [10] (header # ?rows)"
  have per: "\<forall>e \<in> set es. \<forall>g \<in> set (graphemes e).
               10 \<notin> set (enc (g # sharedColumns e)) \<and> isDataLine (enc (g # sharedColumns e)) \<and>
               splitLine (enc (g # sharedColumns e)) = g # sharedColumns e"
    using row es(3) by blast
  have nl: "\<forall>x \<in> set ?rows. 10 \<notin> set x"
    using per by (intro all_rows) blast
  have dl: "\<forall>x \<in> set ?rows. isDataLine x"
    using per by (intro all_rows) blast
  have sp: "map splitLine ?rows =
              concat (map (\<lambda>e. map (\<lambda>g. g # sharedColumns e) (graphemes e)) es)"
    using per by (intro concat_map_rows) blast
  obtain e0 rest where es0: "es = e0 # rest" using es(1) by (cases es) auto
  have "graphemes e0 \<noteq> []" using es(3) es0 by (simp add: roundTrips_def)
  then have rows_ne: "?rows \<noteq> []" using es0 by simp
  have c0: "?content \<noteq> [] \<and> hd ?content = hd header"
    using hdr(4) by (rule hd_joinWith)
  then obtain c cs where cc: "?content = c # cs" "c = hd header"
    by (cases ?content) auto
  have bom: "(case ?content of [] \<Rightarrow> [] | c # cs \<Rightarrow> if c = 65279 then cs else ?content) = ?content"
    using cc hdr(5) by simp
  have lines: "splitOn 10 ?content = header # ?rows"
    using hdr(3) nl by (intro split_join) auto
  have l1: "splitOn 10 (case ?content of [] \<Rightarrow> [] | c # cs \<Rightarrow> if c = 65279 then cs else ?content)
              = header # ?rows"
    unfolding bom by (rule lines)
  have l2: "filter isDataLine (header # ?rows) = header # ?rows"
    using hdr(2) dl by simp
  have none: "\<forall>e \<in> set es. entryKeyOf e \<notin> set (map fst [])" by simp
  have fold: "foldl (addRow expectedHeaders) []
                (concat (map (\<lambda>e. map (\<lambda>g. g # sharedColumns e) (graphemes e)) es)) =
              [] @ map (\<lambda>e. (entryKeyOf e, normalizeEntry e)) es"
    using safe es(2) none es(3) by (rule fold_entries)
  have l5: "foldl (addRow expectedHeaders) [] (map splitLine ?rows) =
              map (\<lambda>e. (entryKeyOf e, normalizeEntry e)) es"
    unfolding sp using fold by simp
  have "parseDelimited splitLine ?content =
          Inr (map snd (map (\<lambda>e. (entryKeyOf e, normalizeEntry e)) es))"
    using l1 l2 rows_ne hdr(1) expected_headers_present l5 by (rule parseDelimited_rows)
  then show ?thesis by (simp add: comp_def)
qed

lemma tsv_row:
  assumes rt: "roundTrips tsvSafe e" and g: "g \<in> set (graphemes e)"
  shows "10 \<notin> set (joinWith [9] (g # sharedColumns e)) \<and>
         isDataLine (joinWith [9] (g # sharedColumns e)) \<and>
         splitOn 9 (joinWith [9] (g # sharedColumns e)) = g # sharedColumns e"
proof -
  have gs: "tsvSafe g" "g \<noteq> []" "hd g \<noteq> 35" using rt g by (auto simp: roundTrips_def list_all_iff)
  have all: "\<forall>v \<in> set (g # sharedColumns e). tsvSafe v"
    using rt gs(1) by (auto simp: roundTrips_def list_all_iff)
  have a: "10 \<notin> set (joinWith [9] (g # sharedColumns e))"
    using all set_joinWith[of "[9]" "g # sharedColumns e"] by (auto simp: tsvSafe_def)
  have h: "joinWith [9] (g # sharedColumns e) \<noteq> [] \<and> hd (joinWith [9] (g # sharedColumns e)) = hd g"
    using gs(2) by (rule hd_joinWith)
  have "\<not> isWhiteSpace (hd g)" using gs by (intro safe_not_white) (simp_all add: tsvSafe_def)
  then have b: "isDataLine (joinWith [9] (g # sharedColumns e))"
    using h gs(3) by (intro isDataLine_start) simp_all
  have c: "splitOn 9 (joinWith [9] (g # sharedColumns e)) = g # sharedColumns e"
    using all by (intro split_join) (auto simp: tsvSafe_def)
  show ?thesis using a b c by blast
qed

lemma csv_row:
  assumes rt: "roundTrips csvSafe e" and g: "g \<in> set (graphemes e)"
  shows "10 \<notin> set (joinWith [44] (map escapeCSV (g # sharedColumns e))) \<and>
         isDataLine (joinWith [44] (map escapeCSV (g # sharedColumns e))) \<and>
         parseCSVLine (joinWith [44] (map escapeCSV (g # sharedColumns e))) = g # sharedColumns e"
proof -
  have gs: "csvSafe g" "g \<noteq> []" "hd g \<noteq> 35" using rt g by (auto simp: roundTrips_def list_all_iff)
  have all: "\<forall>v \<in> set (g # sharedColumns e). csvSafe v"
    using rt gs(1) by (auto simp: roundTrips_def list_all_iff)
  have "\<forall>v \<in> set (g # sharedColumns e). 10 \<notin> set (escapeCSV v)"
    using all set_escapeCSV by (fastforce simp: csvSafe_def)
  then have a: "10 \<notin> set (joinWith [44] (map escapeCSV (g # sharedColumns e)))"
    using set_joinWith[of "[44]" "map escapeCSV (g # sharedColumns e)"] by auto
  have e1: "escapeCSV g \<noteq> [] \<and> (hd (escapeCSV g) = hd g \<or> hd (escapeCSV g) = 34)"
    using gs(2) by (rule hd_escapeCSV)
  have h: "joinWith [44] (map escapeCSV (g # sharedColumns e)) \<noteq> [] \<and>
           hd (joinWith [44] (map escapeCSV (g # sharedColumns e))) = hd (escapeCSV g)"
    using e1 hd_joinWith[of "escapeCSV g" "[44]" "map escapeCSV (sharedColumns e)"] by simp
  have nw: "\<not> isWhiteSpace (hd g)" using gs by (intro safe_not_white) (simp_all add: csvSafe_def)
  have "\<not> isWhiteSpace (hd (escapeCSV g)) \<and> hd (escapeCSV g) \<noteq> 35"
    using e1 nw gs(3) not_white_34 by auto
  then have b: "isDataLine (joinWith [44] (map escapeCSV (g # sharedColumns e)))"
    using h by (intro isDataLine_start) simp_all
  have c: "parseCSVLine (joinWith [44] (map escapeCSV (g # sharedColumns e))) = g # sharedColumns e"
    by (rule parseCSVLine_join) simp
  show ?thesis using a b c by blast
qed

lemma tsvSafe_trim: "tsvSafe v \<Longrightarrow> trim v = v"
  unfolding tsvSafe_def by blast

lemma csvSafe_trim: "csvSafe v \<Longrightarrow> trim v = v"
  unfolding csvSafe_def by blast

lemma tsv_roundtrip:
  assumes "es \<noteq> []" "distinct (map entryKeyOf es)" "\<forall>e \<in> set es. roundTrips tsvSafe e"
  shows "parseTSV (buildTSV es) = Inr (map normalizeEntry es)"
  unfolding parseTSV_def buildTSV_def Let_def
  using tsv_header tsv_row _ assms
  by (rule roundtrip_generic) (assumption | rule tsvSafe_trim)+

lemma csv_roundtrip:
  assumes "es \<noteq> []" "distinct (map entryKeyOf es)" "\<forall>e \<in> set es. roundTrips csvSafe e"
  shows "parseCSV (buildCSV es) = Inr (map normalizeEntry es)"
  unfolding parseCSV_def buildCSV_def Let_def
  using csv_header csv_row _ assms
  by (rule roundtrip_generic[where enc = "\<lambda>fs. joinWith [44] (map escapeCSV fs)"])
     (assumption | rule csvSafe_trim)+

subsection \<open>The XML round trip\<close>

lemma validSayAsTypes_nonblank:
  "t \<in> set validSayAsTypes \<Longrightarrow> t \<noteq> [] \<and> trim t \<noteq> []"
  by (auto simp: validSayAsTypes_def SAY_AS_OPTIONS_def str_def trim_def isWhiteSpace_def)

lemma not_truthy_orEmpty: "\<not> truthy v \<Longrightarrow> orEmpty v = []"
  by (cases v) (auto simp: truthy_def orEmpty_def)

lemma truthy_orEmpty: "truthy v \<longleftrightarrow> orEmpty v \<noteq> []"
  by (cases v) (auto simp: truthy_def orEmpty_def)

lemma sayAsAttribute_kept:
  "sayAsKept v t \<Longrightarrow> truthy v \<Longrightarrow> orEmpty (sayAsAttribute t) = orEmpty t"
  using validSayAsTypes_nonblank[of "orEmpty t"]
  by (auto simp: sayAsKept_def sayAsAttribute_def truthy_orEmpty orEmpty_def)

lemma load_text_child:
  assumes "sayAsKept v t"
  shows "loadText (map_option parsedText (textChild v t)) = Inr (orEmpty v) \<and>
         loadInterpretAs (map_option parsedText (textChild v t)) = orEmpty t"
proof (cases "truthy v")
  case False
  then have "orEmpty t = []" using assms by (simp add: sayAsKept_def)
  then show ?thesis
    using False by (simp add: textChild_def loadText_def loadInterpretAs_def not_truthy_orEmpty)
next
  case True
  then have ne: "orEmpty v \<noteq> []" by (simp add: truthy_orEmpty)
  have k: "orEmpty (sayAsAttribute t) = orEmpty t" using assms True by (rule sayAsAttribute_kept)
  show ?thesis
  proof (cases "sayAsAttribute t")
    case None
    then show ?thesis
      using True ne k
      by (simp add: textChild_def parsedText_def loadText_def loadInterpretAs_def primTruthy_def
          primString_def orEmpty_def)
  next
    case (Some a)
    then show ?thesis
      using True ne k
      by (simp add: textChild_def parsedText_def loadText_def loadInterpretAs_def primTruthy_def
          primString_def orEmpty_def)
  qed
qed

lemma graphemeTextList_strings:
  "graphemeTextList (map (\<lambda>g. PPrim (PString g)) gs) = Inr gs"
  by (induction gs) (simp_all add: graphemeText_def primString_def)

lemma load_graphemes:
  assumes "list_all (\<lambda>g. g \<noteq> []) gs"
  shows "loadGraphemes (fieldOf (map (\<lambda>g. PPrim (PString g)) gs)) = Inr gs"
proof (cases gs)
  case Nil
  then show ?thesis by (simp add: fieldOf_def loadGraphemes_def)
next
  case (Cons g rest)
  show ?thesis
  proof (cases rest)
    case Nil
    then show ?thesis
      using Cons assms
      by (simp add: fieldOf_def loadGraphemes_def parsedTruthy_def primTruthy_def
          graphemeText_def primString_def)
  next
    case (Cons h more)
    have "fieldOf (map (\<lambda>g. PPrim (PString g)) gs) = FArray (map (\<lambda>g. PPrim (PString g)) gs)"
      using \<open>gs = g # rest\<close> Cons by (simp add: fieldOf_def)
    then show ?thesis by (simp add: loadGraphemes_def graphemeTextList_strings)
  qed
qed

lemma lexemeToEntry_built:
  assumes "xmlSafe e"
  shows "lexemeToEntry (parsedLexemeOf (lexemeOf e)) = Inr (normalizeXML e)"
proof -
  have g: "loadGraphemes (fieldOf (map (\<lambda>g. PPrim (PString g)) (graphemes e))) = Inr (graphemes e)"
    using assms by (intro load_graphemes) (simp add: xmlSafe_def)
  have a: "loadText (map_option parsedText (textChild (alias' e) (aliasSayAsType e))) =
             Inr (orEmpty (alias' e))"
          "loadInterpretAs (map_option parsedText (textChild (alias' e) (aliasSayAsType e))) =
             orEmpty (aliasSayAsType e)"
    using load_text_child[of "alias' e" "aliasSayAsType e"] assms by (simp_all add: xmlSafe_def)
  have p: "loadText (map_option parsedText (textChild (phoneme e) (phonemeSayAsType e))) =
             Inr (orEmpty (phoneme e))"
          "loadInterpretAs (map_option parsedText (textChild (phoneme e) (phonemeSayAsType e))) =
             orEmpty (phonemeSayAsType e)"
    using load_text_child[of "phoneme e" "phonemeSayAsType e"] assms by (simp_all add: xmlSafe_def)
  show ?thesis
    by (simp add: lexemeToEntry_def parsedLexemeOf_def lexemeOf_def normalizeXML_def g a p)
qed

lemma lexemesToEntries_built:
  "\<forall>e \<in> set es. xmlSafe e \<Longrightarrow>
   lexemesToEntries (map parsedLexemeOf (map lexemeOf es)) = Inr (map normalizeXML es)"
proof (induction es)
  case Nil
  show ?case by simp
next
  case (Cons e es)
  have h: "lexemeToEntry (parsedLexemeOf (lexemeOf e)) = Inr (normalizeXML e)"
    using Cons.prems by (simp add: lexemeToEntry_built)
  have t: "lexemesToEntries (map parsedLexemeOf (map lexemeOf es)) = Inr (map normalizeXML es)"
    using Cons by simp
  show ?case using h t by simp
qed

lemma itemsOf_fieldOf:
  "\<forall>x \<in> set xs. itemTruthy x \<Longrightarrow> itemsOf (fieldOf xs) = xs"
  by (cases xs rule: remdups_adj.cases) (simp_all add: itemsOf_def fieldOf_def)

lemma combinedEntries_parsedForm:
  "combinedEntries (parsedForm doc) = map parsedLexemeOf doc"
proof -
  have "\<forall>x \<in> set (map parsedLexemeOf doc). itemTruthy x"
    by (simp add: parsedLexemeOf_def itemTruthy_def)
  then show ?thesis
    by (simp add: combinedEntries_def parsedForm_def itemsOf_fieldOf) (simp add: itemsOf_def)
qed

lemma xml_roundtrip:
  assumes "es \<noteq> []" "\<forall>e \<in> set es. xmlSafe e"
    and "parse (serializeToString (map lexemeOf es)) = Some (parsedForm (map lexemeOf es))"
  shows "loadLexicon parse (buildXML serializeToString es) = Inr (map normalizeXML es)"
    and "importLexicon parse (buildXML serializeToString es) = Inr (map normalizeXML es)"
proof -
  have c: "combinedEntries (parsedForm (map lexemeOf es)) = map parsedLexemeOf (map lexemeOf es)"
    by (rule combinedEntries_parsedForm)
  have i: "itemsOf (pLexeme (parsedForm (map lexemeOf es))) = map parsedLexemeOf (map lexemeOf es)"
    using c by (simp add: combinedEntries_def parsedForm_def itemsOf_def)
  have l: "lexemesToEntries (map parsedLexemeOf (map lexemeOf es)) = Inr (map normalizeXML es)"
    using assms(2) by (rule lexemesToEntries_built)
  show "loadLexicon parse (buildXML serializeToString es) = Inr (map normalizeXML es)"
    by (simp add: loadLexicon_def buildXML_def assms(3) c l del: map_map)
  have n: "map parsedLexemeOf (map lexemeOf es) \<noteq> []"
    using assms(1) by simp
  show "importLexicon parse (buildXML serializeToString es) = Inr (map normalizeXML es)"
    using n by (simp add: importLexicon_def buildXML_def assms(3) c i l del: map_map)
qed

text \<open>
  C8 (as the specification states it, refuted).  Round trip for every entry list that
  satisfies the content invariant.  For CSV and TSV: two entries \<open>a\<close> and \<open>b\<close> with the same
  phoneme \<open>x\<close> are written as two rows and read back as one entry with the graphemes \<open>a\<close>
  and \<open>b\<close>, since the decoders group the rows by alias, say-as and phoneme.  For XML: an
  entry whose alias has the say-as type \<open>expletive\<close>, which is not among \<open>SAY_AS_OPTIONS\<close>,
  is written without the \<open>interpret-as\<close> attribute, as the same document as the entry with
  no say-as type, and is read back with the empty say-as type.
\<close>

theorem round_trip_counterexample:
  "parseCSV (buildCSV [plainEntry [str ''a''] None (Some (str ''x'')),
                       plainEntry [str ''b''] None (Some (str ''x''))]) =
     Inr [plainEntry [str ''a'', str ''b''] None (Some (str ''x''))] \<and>
   parseTSV (buildTSV [plainEntry [str ''a''] None (Some (str ''x'')),
                       plainEntry [str ''b''] None (Some (str ''x''))]) =
     Inr [plainEntry [str ''a'', str ''b''] None (Some (str ''x''))] \<and>
   buildXML (\<lambda>doc. doc)
     [\<lparr>graphemes = [str ''a''], alias' = Some (str ''x''),
       aliasSayAsType = Some (str ''expletive''), phoneme = Some [],
       phonemeSayAsType = Some [], isNew = None\<rparr>] =
   buildXML (\<lambda>doc. doc)
     [\<lparr>graphemes = [str ''a''], alias' = Some (str ''x''),
       aliasSayAsType = Some [], phoneme = Some [],
       phonemeSayAsType = Some [], isNew = None\<rparr>] \<and>
   loadLexicon (\<lambda>doc. Some (parsedForm doc))
     (buildXML (\<lambda>doc. doc)
        [\<lparr>graphemes = [str ''a''], alias' = Some (str ''x''),
          aliasSayAsType = Some (str ''expletive''), phoneme = Some [],
          phonemeSayAsType = Some [], isNew = None\<rparr>]) =
     Inr [\<lparr>graphemes = [str ''a''], alias' = Some (str ''x''),
           aliasSayAsType = Some [], phoneme = Some [],
           phonemeSayAsType = Some [], isNew = None\<rparr>]"
proof -
  let ?es = "[plainEntry [str ''a''] None (Some (str ''x'')),
              plainEntry [str ''b''] None (Some (str ''x''))]"
  let ?m = "[(str ''||x|'', plainEntry [str ''a'', str ''b''] None (Some (str ''x'')))]"
  have fold: "foldl (addRow expectedHeaders) []
                [[str ''a'', [], [], str ''x'', []], [str ''b'', [], [], str ''x'', []]] = ?m"
    by (simp add: addRow_def expectedHeaders_def column_def entryKey_def orUndefined_def
        trim_def isWhiteSpace_def str_def plainEntry_def Let_def)
  have c1: "splitOn 10 (case buildCSV ?es of [] \<Rightarrow> [] | c # cs \<Rightarrow> if c = 65279 then cs else buildCSV ?es)
              = [joinWith [44] expectedHeaders, str ''a,,,x,'', str ''b,,,x,'']"
    by (simp add: buildCSV_def sharedColumns_def escapeCSV_def orEmpty_def plainEntry_def
        expectedHeaders_def str_def)
  have c2: "filter isDataLine [joinWith [44] expectedHeaders, str ''a,,,x,'', str ''b,,,x,''] =
              joinWith [44] expectedHeaders # [str ''a,,,x,'', str ''b,,,x,'']"
    by (simp add: isDataLine_def trim_def isWhiteSpace_def expectedHeaders_def str_def)
  have c3: "map parseCSVLine [str ''a,,,x,'', str ''b,,,x,''] =
              [[str ''a'', [], [], str ''x'', []], [str ''b'', [], [], str ''x'', []]]"
    by (simp add: parseCSVLine_def str_def)
  have csv: "parseCSV (buildCSV ?es) = Inr (map snd ?m)"
  proof -
    have c4: "[str ''a,,,x,'', str ''b,,,x,''] \<noteq> []" by simp
    have c5: "foldl (addRow expectedHeaders) [] (map parseCSVLine [str ''a,,,x,'', str ''b,,,x,'']) = ?m"
      unfolding c3 by (rule fold)
    show ?thesis
      unfolding parseCSV_def
      using c1 c2 c4 csv_header(1) expected_headers_present c5 by (rule parseDelimited_rows)
  qed
  have t1: "splitOn 10 (case buildTSV ?es of [] \<Rightarrow> [] | c # cs \<Rightarrow> if c = 65279 then cs else buildTSV ?es)
              = [joinWith [9] expectedHeaders, joinWith [9] [str ''a'', [], [], str ''x'', []],
                 joinWith [9] [str ''b'', [], [], str ''x'', []]]"
    by (simp add: buildTSV_def sharedColumns_def orEmpty_def plainEntry_def
        expectedHeaders_def str_def)
  have t2: "filter isDataLine [joinWith [9] expectedHeaders, joinWith [9] [str ''a'', [], [], str ''x'', []],
                 joinWith [9] [str ''b'', [], [], str ''x'', []]] =
              joinWith [9] expectedHeaders # [joinWith [9] [str ''a'', [], [], str ''x'', []],
                 joinWith [9] [str ''b'', [], [], str ''x'', []]]"
    by (simp add: isDataLine_def trim_def isWhiteSpace_def expectedHeaders_def str_def)
  have t3: "map (splitOn 9) [joinWith [9] [str ''a'', [], [], str ''x'', []],
                 joinWith [9] [str ''b'', [], [], str ''x'', []]] =
              [[str ''a'', [], [], str ''x'', []], [str ''b'', [], [], str ''x'', []]]"
    by (simp add: str_def)
  have tsv: "parseTSV (buildTSV ?es) = Inr (map snd ?m)"
  proof -
    have t4: "[joinWith [9] [str ''a'', [], [], str ''x'', []],
               joinWith [9] [str ''b'', [], [], str ''x'', []]] \<noteq> []" by simp
    have t5: "foldl (addRow expectedHeaders) []
                (map (splitOn 9) [joinWith [9] [str ''a'', [], [], str ''x'', []],
                                  joinWith [9] [str ''b'', [], [], str ''x'', []]]) = ?m"
      unfolding t3 by (rule fold)
    show ?thesis
      unfolding parseTSV_def
      using t1 t2 t4 tsv_header(1) expected_headers_present t5 by (rule parseDelimited_rows)
  qed
  have v: "str ''expletive'' \<notin> set validSayAsTypes"
    by (simp add: validSayAsTypes_def SAY_AS_OPTIONS_def str_def)
  have l: "lexemeOf \<lparr>graphemes = [str ''a''], alias' = Some (str ''x''),
          aliasSayAsType = Some (str ''expletive''), phoneme = Some [],
          phonemeSayAsType = Some [], isNew = None\<rparr> =
        \<lparr>graphemeElements = [str ''a''],
         aliasElement = Some \<lparr>textContent = str ''x'', interpretAs = None\<rparr>,
         phonemeElement = None\<rparr>"
    using v by (simp add: lexemeOf_def textChild_def sayAsAttribute_def orEmpty_def truthy_def str_def)
  have l': "lexemeOf \<lparr>graphemes = [str ''a''], alias' = Some (str ''x''),
          aliasSayAsType = Some [], phoneme = Some [],
          phonemeSayAsType = Some [], isNew = None\<rparr> =
        \<lparr>graphemeElements = [str ''a''],
         aliasElement = Some \<lparr>textContent = str ''x'', interpretAs = None\<rparr>,
         phonemeElement = None\<rparr>"
    by (simp add: lexemeOf_def textChild_def sayAsAttribute_def orEmpty_def truthy_def str_def)
  have p: "lexemeToEntry (parsedLexemeOf
             \<lparr>graphemeElements = [str ''a''],
              aliasElement = Some \<lparr>textContent = str ''x'', interpretAs = None\<rparr>,
              phonemeElement = None\<rparr>) =
           Inr \<lparr>graphemes = [str ''a''], alias' = Some (str ''x''),
                aliasSayAsType = Some [], phoneme = Some [],
                phonemeSayAsType = Some [], isNew = None\<rparr>"
    by (simp add: fieldOf_def parsedLexemeOf_def lexemeToEntry_def loadGraphemes_def
        parsedTruthy_def primTruthy_def graphemeText_def primString_def loadText_def
        loadInterpretAs_def parsedText_def orEmpty_def str_def)
  have x1: "buildXML (\<lambda>doc. doc)
     [\<lparr>graphemes = [str ''a''], alias' = Some (str ''x''),
       aliasSayAsType = Some (str ''expletive''), phoneme = Some [],
       phonemeSayAsType = Some [], isNew = None\<rparr>] =
   buildXML (\<lambda>doc. doc)
     [\<lparr>graphemes = [str ''a''], alias' = Some (str ''x''),
       aliasSayAsType = Some [], phoneme = Some [],
       phonemeSayAsType = Some [], isNew = None\<rparr>]"
    by (simp add: buildXML_def l l')
  have x2: "loadLexicon (\<lambda>doc. Some (parsedForm doc))
     (buildXML (\<lambda>doc. doc)
        [\<lparr>graphemes = [str ''a''], alias' = Some (str ''x''),
          aliasSayAsType = Some (str ''expletive''), phoneme = Some [],
          phonemeSayAsType = Some [], isNew = None\<rparr>]) =
     Inr [\<lparr>graphemes = [str ''a''], alias' = Some (str ''x''),
           aliasSayAsType = Some [], phoneme = Some [],
           phonemeSayAsType = Some [], isNew = None\<rparr>]"
    by (simp add: buildXML_def loadLexicon_def combinedEntries_parsedForm l p)
  have c: "parseCSV (buildCSV ?es) =
             Inr [plainEntry [str ''a'', str ''b''] None (Some (str ''x''))]"
    using csv by simp
  have t: "parseTSV (buildTSV ?es) =
             Inr [plainEntry [str ''a'', str ''b''] None (Some (str ''x''))]"
    using tsv by simp
  show ?thesis
    using c t x1 x2 by (intro conjI)
qed

text \<open>
  C8 (amended).  Round trip of the three codecs.  CSV and TSV: for every non-empty entry
  list whose entries have pairwise distinct grouping keys, each with at least one grapheme,
  whose graphemes are non-empty and do not start with \<open>#\<close>, and whose graphemes, alias, say-as
  types and phoneme have no white space at their ends and no line feed (and no tab, for
  TSV), decoding the encoded list returns the same entries in the same order, with the same
  graphemes, alias, alias say-as, phoneme and phoneme say-as, an empty field being read back
  as absent.  XML: for every non-empty entry list whose entries each have at least one
  grapheme, all graphemes non-empty, and whose say-as types are each empty or one of
  \<open>SAY_AS_OPTIONS\<close> set on a non-empty alias or phoneme, and for every serializer and parser
  such that the parser reads the text that \<open>buildXML\<close> returns as the lexemes that were
  written, texts and attributes as they are, both loaders return the same entries in the
  same order, with the same graphemes, alias, alias say-as, phoneme and phoneme say-as, an
  absent field being read back as the empty string.
\<close>

theorem codec_round_trip:
  "(es \<noteq> [] \<and> distinct (map entryKeyOf es) \<and> (\<forall>e \<in> set es. roundTrips csvSafe e) \<longrightarrow>
      parseCSV (buildCSV es) = Inr (map normalizeEntry es)) \<and>
   (es \<noteq> [] \<and> distinct (map entryKeyOf es) \<and> (\<forall>e \<in> set es. roundTrips tsvSafe e) \<longrightarrow>
      parseTSV (buildTSV es) = Inr (map normalizeEntry es)) \<and>
   (es \<noteq> [] \<and> (\<forall>e \<in> set es. xmlSafe e) \<and>
    parse (buildXML serializeToString es) = Some (parsedForm (map lexemeOf es)) \<longrightarrow>
      loadLexicon parse (buildXML serializeToString es) = Inr (map normalizeXML es) \<and>
      importLexicon parse (buildXML serializeToString es) = Inr (map normalizeXML es))"
proof -
  have x: "parse (buildXML serializeToString es) = Some (parsedForm (map lexemeOf es)) \<Longrightarrow>
           parse (serializeToString (map lexemeOf es)) = Some (parsedForm (map lexemeOf es))"
    by (simp add: buildXML_def)
  show ?thesis
    using csv_roundtrip[of es] tsv_roundtrip[of es]
      xml_roundtrip[of es parse serializeToString] x
    by blast
qed

theorem codec_round_trip_witness:
  "parseCSV (buildCSV [plainEntry [str ''dog'', str ''doggie''] None (Some (str ''dQg'')),
                       plainEntry [str ''a,b''] (Some [115, 34, 116]) (Some [])]) =
     Inr [plainEntry [str ''dog'', str ''doggie''] None (Some (str ''dQg'')),
          plainEntry [str ''a,b''] (Some [115, 34, 116]) None] \<and>
   parseTSV (buildTSV [plainEntry [str ''dog'', str ''doggie''] None (Some (str ''dQg'')),
                       plainEntry [str ''a,b''] (Some [115, 34, 116]) (Some [])]) =
     Inr [plainEntry [str ''dog'', str ''doggie''] None (Some (str ''dQg'')),
          plainEntry [str ''a,b''] (Some [115, 34, 116]) None] \<and>
   loadLexicon (\<lambda>doc. Some (parsedForm doc))
     (buildXML (\<lambda>doc. doc)
        [plainEntry [str ''dog'', str ''doggie''] None (Some (str ''dQg'')),
         \<lparr>graphemes = [str ''a,b''], alias' = Some [115, 34, 116],
          aliasSayAsType = Some (str ''characters''), phoneme = Some [],
          phonemeSayAsType = None, isNew = Some True\<rparr>]) =
     Inr [\<lparr>graphemes = [str ''dog'', str ''doggie''], alias' = Some [],
           aliasSayAsType = Some [], phoneme = Some (str ''dQg''),
           phonemeSayAsType = Some [], isNew = None\<rparr>,
          \<lparr>graphemes = [str ''a,b''], alias' = Some [115, 34, 116],
           aliasSayAsType = Some (str ''characters''), phoneme = Some [],
           phonemeSayAsType = Some [], isNew = None\<rparr>] \<and>
   importLexicon (\<lambda>doc. Some (parsedForm doc))
     (buildXML (\<lambda>doc. doc)
        [plainEntry [str ''dog'', str ''doggie''] None (Some (str ''dQg'')),
         \<lparr>graphemes = [str ''a,b''], alias' = Some [115, 34, 116],
          aliasSayAsType = Some (str ''characters''), phoneme = Some [],
          phonemeSayAsType = None, isNew = Some True\<rparr>]) =
     Inr [\<lparr>graphemes = [str ''dog'', str ''doggie''], alias' = Some [],
           aliasSayAsType = Some [], phoneme = Some (str ''dQg''),
           phonemeSayAsType = Some [], isNew = None\<rparr>,
          \<lparr>graphemes = [str ''a,b''], alias' = Some [115, 34, 116],
           aliasSayAsType = Some (str ''characters''), phoneme = Some [],
           phonemeSayAsType = Some [], isNew = None\<rparr>]"
proof -
  let ?es = "[plainEntry [str ''dog'', str ''doggie''] None (Some (str ''dQg'')),
              plainEntry [str ''a,b''] (Some [115, 34, 116]) (Some [])]"
  let ?xs = "[plainEntry [str ''dog'', str ''doggie''] None (Some (str ''dQg'')),
         \<lparr>graphemes = [str ''a,b''], alias' = Some [115, 34, 116],
          aliasSayAsType = Some (str ''characters''), phoneme = Some [],
          phonemeSayAsType = None, isNew = Some True\<rparr>]"
  have h1: "?es \<noteq> []" by simp
  have h2: "distinct (map entryKeyOf ?es)"
    by (simp add: entryKeyOf_def entryKey_def orEmpty_def plainEntry_def str_def)
  have h3: "\<forall>e \<in> set ?es. roundTrips csvSafe e"
    by (simp add: roundTrips_def csvSafe_def sharedColumns_def orEmpty_def plainEntry_def
        trim_def isWhiteSpace_def str_def)
  have h4: "\<forall>e \<in> set ?es. roundTrips tsvSafe e"
    by (simp add: roundTrips_def tsvSafe_def sharedColumns_def orEmpty_def plainEntry_def
        trim_def isWhiteSpace_def str_def)
  have n: "map normalizeEntry ?es =
             [plainEntry [str ''dog'', str ''doggie''] None (Some (str ''dQg'')),
              plainEntry [str ''a,b''] (Some [115, 34, 116]) None]"
    by (simp add: normalizeEntry_def orUndefined_def orEmpty_def plainEntry_def str_def)
  have x1: "?xs \<noteq> []" by simp
  have x2: "\<forall>e \<in> set ?xs. xmlSafe e"
    by (simp add: xmlSafe_def sayAsKept_def truthy_def orEmpty_def plainEntry_def
        validSayAsTypes_def SAY_AS_OPTIONS_def str_def)
  have x3: "(\<lambda>doc. Some (parsedForm doc)) (buildXML (\<lambda>doc. doc) ?xs) =
              Some (parsedForm (map lexemeOf ?xs))"
    by (simp add: buildXML_def)
  have xn: "map normalizeXML ?xs =
     [\<lparr>graphemes = [str ''dog'', str ''doggie''], alias' = Some [],
           aliasSayAsType = Some [], phoneme = Some (str ''dQg''),
           phonemeSayAsType = Some [], isNew = None\<rparr>,
          \<lparr>graphemes = [str ''a,b''], alias' = Some [115, 34, 116],
           aliasSayAsType = Some (str ''characters''), phoneme = Some [],
           phonemeSayAsType = Some [], isNew = None\<rparr>]"
    by (simp add: normalizeXML_def orEmpty_def plainEntry_def)
  have ct: "parseCSV (buildCSV ?es) =
              Inr [plainEntry [str ''dog'', str ''doggie''] None (Some (str ''dQg'')),
                   plainEntry [str ''a,b''] (Some [115, 34, 116]) None] \<and>
            parseTSV (buildTSV ?es) =
              Inr [plainEntry [str ''dog'', str ''doggie''] None (Some (str ''dQg'')),
                   plainEntry [str ''a,b''] (Some [115, 34, 116]) None]"
    using h1 h2 h3 h4
      codec_round_trip[of ?es "\<lambda>doc. Some (parsedForm doc)" "\<lambda>doc. doc"]
    unfolding n by blast
  have xl: "loadLexicon (\<lambda>doc. Some (parsedForm doc)) (buildXML (\<lambda>doc. doc) ?xs) =
              Inr (map normalizeXML ?xs) \<and>
            importLexicon (\<lambda>doc. Some (parsedForm doc)) (buildXML (\<lambda>doc. doc) ?xs) =
              Inr (map normalizeXML ?xs)"
    using x1 x2 x3
      codec_round_trip[of ?xs "\<lambda>doc. Some (parsedForm doc)" "\<lambda>doc. doc"]
    by blast
  show ?thesis
    using ct xl unfolding xn by (intro conjI) blast+
qed

end
